theory Spec2Isabelle
  imports Main "HOL-Library.Word"
begin

unbundle bit_operations_syntax

section \<open>Python values: exceptions, arrays, the file system\<close>

text \<open>
  The dataset builders \<^verbatim>\<open>create_bsds\<close> (datasets/bsds/bsds.py) and
  \<^verbatim>\<open>create_imagenet\<close> (datasets/imagenet/imagenet.py) either return \<^verbatim>\<open>None\<close> or
  raise. A run is modelled as a function from the world before the call to an outcome
  and the world after it, so that what was read, printed and written is visible also
  when the run raises.
\<close>

datatype exn = RuntimeError | ValueError | TypeError | IndexError | OSError | MemoryError

datatype outcome = Returned | Raised exn

text \<open>
  A two-dimensional \<^verbatim>\<open>uint8\<close> array is its shape and its indexing function; only
  the indices inside the shape are meaningful. A three-dimensional array with a leading
  image axis (\<^verbatim>\<open>reference_uint8\<close>, \<^verbatim>\<open>luminances_uint8\<close> whose last axis has
  extent 1) is the list of its slices along that axis.
\<close>

record arr2 =
  nrows :: nat
  ncols :: nat
  at2 :: "nat \<Rightarrow> nat \<Rightarrow> 8 word"

record arr3 =
  dim0 :: nat
  dim1 :: nat
  dim2 :: nat
  at3 :: "nat \<Rightarrow> nat \<Rightarrow> nat \<Rightarrow> 8 word"

definition zeros2 :: "nat \<Rightarrow> nat \<Rightarrow> arr2" where
  "zeros2 h w = \<lparr>nrows = h, ncols = w, at2 = (\<lambda>r c. 0)\<rparr>"

definition zeros :: "nat \<Rightarrow> nat \<Rightarrow> nat \<Rightarrow> arr2 list" where
  "zeros n h w = replicate n (zeros2 h w)"

text \<open>\<^verbatim>\<open>a[r0:r1, c0:c1]\<close> for bounds that are not negative.\<close>

definition slice2 :: "arr2 \<Rightarrow> nat \<Rightarrow> nat \<Rightarrow> nat \<Rightarrow> nat \<Rightarrow> arr2" where
  "slice2 a r0 r1 c0 c1 =
     \<lparr>nrows = min r1 (nrows a) - min r0 (nrows a),
      ncols = min c1 (ncols a) - min c0 (ncols a),
      at2 = (\<lambda>r c. at2 a (r0 + r) (c0 + c))\<rparr>"

text \<open>
  \<^verbatim>\<open>numpy.rot90(a)\<close>: one counterclockwise quarter turn, the transpose of the array
  with its columns reversed.
\<close>

definition rot90 :: "arr2 \<Rightarrow> arr2" where
  "rot90 a = \<lparr>nrows = ncols a, ncols = nrows a,
              at2 = (\<lambda>i j. at2 a j (ncols a - 1 - i))\<rparr>"

text \<open>\<^verbatim>\<open>a[:, :, 0]\<close>; an empty last axis raises \<^verbatim>\<open>IndexError\<close>.\<close>

definition channel0 :: "arr3 \<Rightarrow> exn + arr2" where
  "channel0 a =
     (if dim2 a = 0 then Inl IndexError
      else Inr \<lparr>nrows = dim0 a, ncols = dim1 a, at2 = (\<lambda>r c. at3 a r c 0)\<rparr>)"

text \<open>
  \<^verbatim>\<open>a[i, :, :] = x\<close> for a two-dimensional \<^verbatim>\<open>x\<close>: the index is checked first,
  then \<^verbatim>\<open>x\<close> is broadcast to the shape of the slice (an axis of \<^verbatim>\<open>x\<close> must have
  the extent of the slice or extent 1), otherwise \<^verbatim>\<open>ValueError\<close>.
\<close>

definition broadcastable :: "arr2 \<Rightarrow> nat \<Rightarrow> nat \<Rightarrow> bool" where
  "broadcastable x h w \<longleftrightarrow> (nrows x = h \<or> nrows x = 1) \<and> (ncols x = w \<or> ncols x = 1)"

definition broadcast_to :: "arr2 \<Rightarrow> nat \<Rightarrow> nat \<Rightarrow> arr2" where
  "broadcast_to x h w =
     \<lparr>nrows = h, ncols = w,
      at2 = (\<lambda>r c. at2 x (if nrows x = h then r else 0) (if ncols x = w then c else 0))\<rparr>"

definition set_slice :: "arr2 list \<Rightarrow> nat \<Rightarrow> arr2 \<Rightarrow> exn + arr2 list" where
  "set_slice a i x =
     (if length a \<le> i then Inl IndexError
      else if broadcastable x (nrows (a ! i)) (ncols (a ! i))
      then Inr (a[i := broadcast_to x (nrows (a ! i)) (ncols (a ! i))])
      else Inl ValueError)"

text \<open>\<^verbatim>\<open>xs[a:b]\<close> with Python's rule for negative and too large bounds.\<close>

definition py_bound :: "nat \<Rightarrow> int \<Rightarrow> nat" where
  "py_bound n k = (if k < 0 then nat (max 0 (int n + k)) else min n (nat k))"

definition py_slice :: "'a list \<Rightarrow> int \<Rightarrow> int \<Rightarrow> 'a list" where
  "py_slice xs a b =
     (let s = py_bound (length xs) a; e = py_bound (length xs) b
      in take (e - s) (drop s xs))"

text \<open>
  The file system as far as the builders see it: the regular files with what the
  builders store in them, the folders with their listings, and which paths can be
  opened for writing. The world adds the state of the random generator, the lines
  printed, the log of images read and files written, and the two limits that
  \<^verbatim>\<open>numpy.zeros\<close> meets, described below.
\<close>

datatype fobj = Npy "arr2 list" | Pickle "nat list" | Other

record filesystem =
  files :: "string \<Rightarrow> fobj option"
  folders :: "string \<Rightarrow> string list option"
  writable :: "string \<Rightarrow> bool"

datatype io_event = ImageRead string | Saved string fobj

datatype printed = Text string | ErrText exn

record world =
  fs :: filesystem
  rng :: nat
  stdout :: "printed list"
  io_log :: "io_event list"
  array_limit :: nat
  allocates :: "nat \<Rightarrow> bool"

text \<open>
  \<^verbatim>\<open>numpy.zeros((n, h, w, 1), dtype=numpy.uint8)\<close> on Python integers. A negative
  extent raises \<^verbatim>\<open>ValueError\<close>. So does a shape that is too big for numpy: numpy
  multiplies the extents other than 0 and raises \<^verbatim>\<open>ValueError\<close> when the product,
  a number of bytes, is more than it can address on the platform (\<open>array_limit\<close>,
  the largest \<^verbatim>\<open>npy_intp\<close>). An array that passes these checks and that the memory
  at hand cannot hold raises \<^verbatim>\<open>MemoryError\<close>; which sizes can be had
  (\<open>allocates\<close>) is a matter of the machine. Both are parameters of the world.
\<close>

definition array_bytes :: "nat \<Rightarrow> nat \<Rightarrow> nat \<Rightarrow> nat" where
  "array_bytes n h w = max 1 n * max 1 h * max 1 w"

definition numpy_zeros :: "world \<Rightarrow> int \<Rightarrow> int \<Rightarrow> int \<Rightarrow> exn + arr2 list" where
  "numpy_zeros env n h w =
     (if n < 0 \<or> h < 0 \<or> w < 0 then Inl ValueError
      else if array_limit env < array_bytes (nat n) (nat h) (nat w) then Inl ValueError
      else if \<not> allocates env (nat n * nat h * nat w) then Inl MemoryError
      else Inr (zeros (nat n) (nat h) (nat w)))"

definition isfile :: "world \<Rightarrow> string \<Rightarrow> bool" where
  "isfile w p \<longleftrightarrow> files (fs w) p \<noteq> None"

definition listdir :: "world \<Rightarrow> string \<Rightarrow> exn + string list" where
  "listdir w p = (case folders (fs w) p of None \<Rightarrow> Inl OSError | Some names \<Rightarrow> Inr names)"

definition print_line :: "string \<Rightarrow> world \<Rightarrow> world" where
  "print_line s w = w\<lparr>stdout := stdout w @ [Text s]\<rparr>"

definition print_err :: "exn \<Rightarrow> world \<Rightarrow> world" where
  "print_err e w = w\<lparr>stdout := stdout w @ [ErrText e]\<rparr>"

text \<open>\<^verbatim>\<open>os.path.join\<close> of two components (posixpath).\<close>

definition path_join :: "string \<Rightarrow> string \<Rightarrow> string" where
  "path_join a b =
     (if b \<noteq> [] \<and> hd b = CHR ''/'' then b
      else if a = [] \<or> last a = CHR ''/'' then a @ b
      else a @ ''/'' @ b)"

text \<open>Opening a path for writing and storing an object in it.\<close>

definition write_file :: "string \<Rightarrow> fobj \<Rightarrow> world \<Rightarrow> (exn + unit) \<times> world" where
  "write_file p c w =
     (if writable (fs w) p
      then (Inr (), w\<lparr>fs := (fs w)\<lparr>files := (files (fs w))(p \<mapsto> c)\<rparr>,
                      io_log := io_log w @ [Saved p c]\<rparr>)
      else (Inl OSError, w))"

text \<open>\<^verbatim>\<open>numpy.save\<close> appends \<^verbatim>\<open>.npy\<close> to a file name that does not end with it.\<close>

definition npy_name :: "string \<Rightarrow> string" where
  "npy_name p = (if drop (length p - 4) p = ''.npy'' then p else p @ ''.npy'')"

definition numpy_save :: "string \<Rightarrow> arr2 list \<Rightarrow> world \<Rightarrow> (exn + unit) \<times> world" where
  "numpy_save p a w = write_file (npy_name p) (Npy a) w"

definition pickle_dump :: "string \<Rightarrow> nat list \<Rightarrow> world \<Rightarrow> (exn + unit) \<times> world" where
  "pickle_dump p xs w = write_file p (Pickle xs) w"

section \<open>The helpers of tools/tools.py\<close>

text \<open>
  The module \<^verbatim>\<open>tools.tools\<close> is imported by both builders and is not part of the
  sources at hand, so its functions are parameters of the model. A helper may raise.
  The two helpers that extract an archive change the file system, the cropping helper
  draws from the random generator when \<^verbatim>\<open>is_random\<close> holds, the others only compute.
  The arrays the helpers return are taken to be \<^verbatim>\<open>uint8\<close> arrays, as the names of
  the variables that receive them say.
\<close>

record tools =
  download_untar_archive ::
    "string \<Rightarrow> string \<Rightarrow> string \<Rightarrow> filesystem \<Rightarrow> (exn + bool) \<times> filesystem"
  untar_archive :: "string \<Rightarrow> string \<Rightarrow> filesystem \<Rightarrow> (exn + unit) \<times> filesystem"
  clean_sort_list_strings :: "string list \<Rightarrow> string list \<Rightarrow> exn + string list"
  read_image_mode :: "string \<Rightarrow> string \<Rightarrow> filesystem \<Rightarrow> exn + arr3"
  rgb_to_ycbcr :: "arr3 \<Rightarrow> exn + arr3"
  crop_option_2d :: "arr2 \<Rightarrow> int \<Rightarrow> bool \<Rightarrow> nat \<Rightarrow> (exn + arr2) \<times> nat"

text \<open>
  \<^verbatim>\<open>tls.rgb_to_ycbcr(tls.read_image_mode(path, 'RGB'))[:, :, 0]\<close>, the luminance of
  the image stored at a path; both builders compute it.
\<close>

definition luminance_of :: "tools \<Rightarrow> filesystem \<Rightarrow> string \<Rightarrow> exn + arr2" where
  "luminance_of T f p =
     (case read_image_mode T p ''RGB'' f of
        Inl e \<Rightarrow> Inl e
      | Inr rgb_uint8 \<Rightarrow>
          (case rgb_to_ycbcr T rgb_uint8 of
             Inl e \<Rightarrow> Inl e
           | Inr ycbcr \<Rightarrow> channel0 ycbcr))"

section \<open>create_bsds\<close>

definition height_bsds :: nat where
  "height_bsds = 321"

definition width_bsds :: nat where
  "width_bsds = 481"

text \<open>Lines 54 to 62: the optional download and extraction of the archive.\<close>

definition bsds_fetch ::
  "tools \<Rightarrow> string \<Rightarrow> string \<Rightarrow> string \<Rightarrow> world \<Rightarrow> (exn + unit) \<times> world" where
  \<open>bsds_fetch T source_url path_to_folder_rgbs path_to_tar w =
     (if path_to_tar \<noteq> [] then
        (case download_untar_archive T source_url path_to_folder_rgbs path_to_tar (fs w) of
           (Inl e, f) \<Rightarrow> (Inl e, w\<lparr>fs := f\<rparr>)
         | (Inr is_downloaded, f) \<Rightarrow>
             (Inr (),
              if is_downloaded
              then print_line (''Successfully downloaded "'' @ path_to_tar @ ''".'') (w\<lparr>fs := f\<rparr>)
              else print_line ''Delete it manually to re-download it.''
                     (print_line (''"'' @ path_to_tar @ ''" already exists.'') (w\<lparr>fs := f\<rparr>))))
      else (Inr (), w))\<close>

text \<open>Lines 74 to 77: the folder of the test images and its sorted listing.\<close>

definition path_to_folder_test :: "string \<Rightarrow> string" where
  "path_to_folder_test path_to_folder_rgbs = path_join path_to_folder_rgbs ''BSDS300/images/test/''"

definition bsds_list_names :: "tools \<Rightarrow> string \<Rightarrow> world \<Rightarrow> exn + string list" where
  "bsds_list_names T path_to_folder_rgbs w =
     (case listdir w (path_to_folder_test path_to_folder_rgbs) of
        Inl e \<Rightarrow> Inl e
      | Inr names \<Rightarrow> clean_sort_list_strings T names [''jpg''])"

text \<open>
  Lines 81 to 101, the body of the loop for the index \<open>i\<close>, on the pair of
  \<^verbatim>\<open>reference_uint8\<close> and \<^verbatim>\<open>list_rotation\<close>. The loop runs only when
  \<^verbatim>\<open>list_names\<close> has 100 entries, so \<^verbatim>\<open>list_names[i]\<close> is in range.
\<close>

definition bsds_image ::
  "tools \<Rightarrow> string \<Rightarrow> string list \<Rightarrow> nat \<Rightarrow> arr2 list \<times> nat list \<Rightarrow> world
     \<Rightarrow> (exn + arr2 list \<times> nat list) \<times> world" where
  "bsds_image T folder_test list_names i st w =
     (let path_to_file = path_join folder_test (list_names ! i);
          w1 = w\<lparr>io_log := io_log w @ [ImageRead path_to_file]\<rparr>
      in case luminance_of T (fs w) path_to_file of
           Inl e \<Rightarrow> (Inl e, w1)
         | Inr luminance_uint8 \<Rightarrow>
             (let height_image = nrows luminance_uint8; width_image = ncols luminance_uint8
              in if height_image = height_bsds \<and> width_image = width_bsds then
                   (case set_slice (fst st) i (slice2 luminance_uint8 1 height_bsds 1 width_bsds) of
                      Inl e \<Rightarrow> (Inl e, w1)
                    | Inr reference_uint8 \<Rightarrow> (Inr (reference_uint8, snd st), w1))
                 else if width_image = height_bsds \<and> height_image = width_bsds then
                   (case set_slice (fst st) i
                           (rot90 (slice2 luminance_uint8 1 width_bsds 1 height_bsds)) of
                      Inl e \<Rightarrow> (Inl e, w1)
                    | Inr reference_uint8 \<Rightarrow> (Inr (reference_uint8, snd st @ [i]), w1))
                 else (Inl ValueError, w1)))"

fun bsds_loop ::
  "tools \<Rightarrow> string \<Rightarrow> string list \<Rightarrow> nat list \<Rightarrow> arr2 list \<times> nat list \<Rightarrow> world
     \<Rightarrow> (exn + arr2 list \<times> nat list) \<times> world" where
  "bsds_loop T folder_test list_names [] st w = (Inr st, w)"
| "bsds_loop T folder_test list_names (i # rest) st w =
     (case bsds_image T folder_test list_names i st w of
        (Inl e, w') \<Rightarrow> (Inl e, w')
      | (Inr st', w') \<Rightarrow> bsds_loop T folder_test list_names rest st' w')"

text \<open>
  Lines 64 to 106: building and saving the set. The array of line 68 has the fixed size
  of 100 x 320 x 480 bytes; its allocation is taken to succeed.
\<close>

definition bsds_build :: "tools \<Rightarrow> string \<Rightarrow> string \<Rightarrow> string \<Rightarrow> world \<Rightarrow> outcome \<times> world" where
  "bsds_build T path_to_folder_rgbs path_to_bsds path_to_list_rotation w =
     (let reference_uint8 = zeros 100 (height_bsds - 1) (width_bsds - 1);
          list_rotation = []
      in case bsds_list_names T path_to_folder_rgbs w of
           Inl e \<Rightarrow> (Raised e, w)
         | Inr list_names \<Rightarrow>
             if length list_names \<noteq> 100 then (Raised RuntimeError, w)
             else
               (case bsds_loop T (path_to_folder_test path_to_folder_rgbs) list_names [0..<100]
                       (reference_uint8, list_rotation) w of
                  (Inl e, w1) \<Rightarrow> (Raised e, w1)
                | (Inr (reference_uint8, list_rotation), w1) \<Rightarrow>
                    (case numpy_save path_to_bsds reference_uint8 w1 of
                       (Inl e, w2) \<Rightarrow> (Raised e, w2)
                     | (Inr u, w2) \<Rightarrow>
                         (case pickle_dump path_to_list_rotation list_rotation w2 of
                            (Inl e, w3) \<Rightarrow> (Raised e, w3)
                          | (Inr u', w3) \<Rightarrow> (Returned, w3)))))"

definition create_bsds ::
  "tools \<Rightarrow> string \<Rightarrow> string \<Rightarrow> string \<Rightarrow> string \<Rightarrow> string \<Rightarrow> world \<Rightarrow> outcome \<times> world" where
  \<open>create_bsds T source_url path_to_folder_rgbs path_to_bsds path_to_list_rotation path_to_tar w =
     (if isfile w path_to_bsds \<and> isfile w path_to_list_rotation then
        (Returned,
         print_line ''Delete them manually to recreate the BSDS test set.''
           (print_line (''"'' @ path_to_bsds @ ''" and "'' @ path_to_list_rotation
                          @ ''" already exist.'') w))
      else
        (case bsds_fetch T source_url path_to_folder_rgbs path_to_tar w of
           (Inl e, w1) \<Rightarrow> (Raised e, w1)
         | (Inr u, w1) \<Rightarrow> bsds_build T path_to_folder_rgbs path_to_bsds path_to_list_rotation w1))\<close>

section \<open>create_imagenet\<close>

text \<open>Lines 57 to 59: the optional extraction of the archive.\<close>

definition imagenet_fetch :: "tools \<Rightarrow> string \<Rightarrow> string \<Rightarrow> world \<Rightarrow> (exn + unit) \<times> world" where
  "imagenet_fetch T path_to_folder_rgbs path_to_tar w =
     (if path_to_tar \<noteq> [] then
        (case untar_archive T path_to_folder_rgbs path_to_tar (fs w) of
           (r, f) \<Rightarrow> (r, w\<lparr>fs := f\<rparr>))
      else (Inr (), w))"

definition imagenet_list_names :: "tools \<Rightarrow> string \<Rightarrow> world \<Rightarrow> exn + string list" where
  "imagenet_list_names T path_to_folder_rgbs w =
     (case listdir w path_to_folder_rgbs of
        Inl e \<Rightarrow> Inl e
      | Inr names \<Rightarrow> clean_sort_list_strings T names [''jpg'', ''JPEG'', ''png''])"

text \<open>Lines 84 to 89, the two statements under \<^verbatim>\<open>try\<close>.\<close>

definition read_crop ::
  "tools \<Rightarrow> int \<Rightarrow> bool \<Rightarrow> string \<Rightarrow> world \<Rightarrow> (exn + arr2) \<times> world" where
  "read_crop T width_crop is_random path_to_rgb w =
     (let w1 = w\<lparr>io_log := io_log w @ [ImageRead path_to_rgb]\<rparr>
      in case luminance_of T (fs w) path_to_rgb of
           Inl e \<Rightarrow> (Inl e, w1)
         | Inr luminance \<Rightarrow>
             (case crop_option_2d T luminance width_crop is_random (rng w) of
                (r, g) \<Rightarrow> (r, w1\<lparr>rng := g\<rparr>)))"

text \<open>
  Lines 71 to 97: the loop over \<^verbatim>\<open>list_names\<close>, on the counter \<open>i\<close> and the array
  \<^verbatim>\<open>luminances_uint8\<close>. \<^verbatim>\<open>continue\<close> and the end of the body go on with the rest
  of the list, \<^verbatim>\<open>break\<close> leaves the loop. Only \<^verbatim>\<open>TypeError\<close> and
  \<^verbatim>\<open>ValueError\<close> raised under \<^verbatim>\<open>try\<close> are caught; the assignment to the array is
  outside \<^verbatim>\<open>try\<close>.
\<close>

fun imagenet_loop ::
  "tools \<Rightarrow> string \<Rightarrow> int \<Rightarrow> int \<Rightarrow> int \<Rightarrow> string list \<Rightarrow> nat \<times> arr2 list \<Rightarrow> world
     \<Rightarrow> (exn + nat \<times> arr2 list) \<times> world" where
  \<open>imagenet_loop T path_to_folder_rgbs width_crop nb_training nb_total [] st w = (Inr st, w)\<close>
| \<open>imagenet_loop T path_to_folder_rgbs width_crop nb_training nb_total (name # rest) st w =
     (let i = fst st; luminances_uint8 = snd st;
          path_to_rgb = path_join path_to_folder_rgbs name;
          is_random = (int i < nb_training)
      in case read_crop T width_crop is_random path_to_rgb w of
           (Inl err, w1) \<Rightarrow>
             if err = TypeError \<or> err = ValueError then
               imagenet_loop T path_to_folder_rgbs width_crop nb_training nb_total rest st
                 (print_line (''"'' @ path_to_rgb @ ''" is skipped.'' @ [CHR 0x0A]) (print_err err w1))
             else (Inl err, w1)
         | (Inr crop_uint8, w1) \<Rightarrow>
             (case set_slice luminances_uint8 i crop_uint8 of
                Inl e \<Rightarrow> (Inl e, w1)
              | Inr luminances_uint8' \<Rightarrow>
                  if int (i + 1) = nb_total then (Inr (i + 1, luminances_uint8'), w1)
                  else imagenet_loop T path_to_folder_rgbs width_crop nb_training nb_total rest
                         (i + 1, luminances_uint8') w1))\<close>

text \<open>Lines 60 to 111: building and saving the two sets.\<close>

definition imagenet_build ::
  "tools \<Rightarrow> string \<Rightarrow> int \<Rightarrow> int \<Rightarrow> int \<Rightarrow> string \<Rightarrow> string \<Rightarrow> world \<Rightarrow> outcome \<times> world" where
  "imagenet_build T path_to_folder_rgbs width_crop nb_training nb_validation
       path_to_training path_to_validation w =
     (let nb_total = nb_training + nb_validation
      in case numpy_zeros w nb_total width_crop width_crop of
           Inl e \<Rightarrow> (Raised e, w)
         | Inr luminances_uint8 \<Rightarrow>
             (case imagenet_list_names T path_to_folder_rgbs w of
                Inl e \<Rightarrow> (Raised e, w)
              | Inr list_names \<Rightarrow>
                  (case imagenet_loop T path_to_folder_rgbs width_crop nb_training nb_total
                          list_names (0, luminances_uint8) w of
                     (Inl e, w1) \<Rightarrow> (Raised e, w1)
                   | (Inr (i, luminances_uint8), w1) \<Rightarrow>
                       if int i \<noteq> nb_total then (Raised RuntimeError, w1)
                       else
                         (let training_data = py_slice luminances_uint8 0 nb_training;
                              validation_data = py_slice luminances_uint8 nb_training nb_total
                          in case numpy_save path_to_training training_data w1 of
                               (Inl e, w2) \<Rightarrow> (Raised e, w2)
                             | (Inr u, w2) \<Rightarrow>
                                 (case numpy_save path_to_validation validation_data w2 of
                                    (Inl e, w3) \<Rightarrow> (Raised e, w3)
                                  | (Inr u', w3) \<Rightarrow> (Returned, w3))))))"

definition create_imagenet ::
  "tools \<Rightarrow> string \<Rightarrow> int \<Rightarrow> int \<Rightarrow> int \<Rightarrow> string \<Rightarrow> string \<Rightarrow> string \<Rightarrow> world
     \<Rightarrow> outcome \<times> world" where
  \<open>create_imagenet T path_to_folder_rgbs width_crop nb_training nb_validation
       path_to_training path_to_validation path_to_tar w =
     (if isfile w path_to_training \<and> isfile w path_to_validation then
        (Returned,
         print_line ''Delete them manually to recreate the ImageNet training and validation sets.''
           (print_line (''"'' @ path_to_training @ ''" and "'' @ path_to_validation
                          @ ''" already exist.'') w))
      else
        (case imagenet_fetch T path_to_folder_rgbs path_to_tar w of
           (Inl e, w1) \<Rightarrow> (Raised e, w1)
         | (Inr u, w1) \<Rightarrow>
             imagenet_build T path_to_folder_rgbs width_crop nb_training nb_validation
               path_to_training path_to_validation w1))\<close>

section \<open>The Bitstream of the lossless coder\<close>

text \<open>
  Modelled from the spec: the error taxonomy of section 7; the C++ sources that raise
  these errors are not among the sources at hand.
\<close>

datatype coder_error =
  AlphabetViolation | CorruptStream | MalformedHeader | ExhaustedInput | InvalidState

text \<open>
  Modelled from the spec: the Bitstream writer of section 4.1 (Bitstream.cpp is not among
  the sources at hand), an append-only bit buffer backed by bytes. The state is the bytes
  completed so far, the bits of the byte being filled, held in the low positions of
  \<open>partial\<close>, and their number, from 0 to 7.
\<close>

record bit_writer =
  bytes_out :: "8 word list"
  partial :: "8 word"
  filled :: nat

text \<open>
  Modelled from the spec: a writer that holds no bit.
\<close>

definition new_writer :: bit_writer where
  "new_writer = \<lparr>bytes_out = [], partial = 0, filled = 0\<rparr>"

text \<open>
  Modelled from the spec: packing is most significant bit first, so a new bit enters a
  byte from the right.
\<close>

definition shift_in :: "8 word \<Rightarrow> bool \<Rightarrow> 8 word" where
  "shift_in p b = push_bit 1 p OR (if b then 1 else 0)"

text \<open>
  Modelled from the spec: \<^verbatim>\<open>writeBit(b)\<close> appends one bit to the buffer; the eighth bit
  of a byte completes it.
\<close>

definition writeBit :: "bool \<Rightarrow> bit_writer \<Rightarrow> bit_writer" where
  "writeBit b w =
     (let p = shift_in (partial w) b
      in if filled w = 7
         then \<lparr>bytes_out = bytes_out w @ [p], partial = 0, filled = 0\<rparr>
         else \<lparr>bytes_out = bytes_out w, partial = p, filled = filled w + 1\<rparr>)"

text \<open>
  Modelled from the spec: a sequence of \<^verbatim>\<open>writeBit\<close> calls, in the order of the list.
\<close>

fun write_bits :: "bool list \<Rightarrow> bit_writer \<Rightarrow> bit_writer" where
  "write_bits [] w = w"
| "write_bits (b # bs) w = write_bits bs (writeBit b w)"

text \<open>
  Modelled from the spec: \<^verbatim>\<open>flush()\<close> pads the final partial byte with a fixed bit value
  and returns the byte buffer. The spec does not name the value; it is the parameter
  \<open>pad\<close>.
\<close>

definition flush :: "bool \<Rightarrow> bit_writer \<Rightarrow> 8 word list" where
  "flush pad w =
     (if filled w = 0 then bytes_out w
      else bytes_out (write_bits (replicate (8 - filled w) pad) w))"

text \<open>
  Modelled from the spec: the Bitstream reader of section 4.1 over a byte buffer, with its
  read position counted in bits.
\<close>

record bit_reader =
  buffer :: "8 word list"
  position :: nat

text \<open>
  Modelled from the spec: a reader at the start of a buffer.
\<close>

definition open_reader :: "8 word list \<Rightarrow> bit_reader" where
  "open_reader buf = \<lparr>buffer = buf, position = 0\<rparr>"

text \<open>
  Modelled from the spec: \<^verbatim>\<open>readBit()\<close> returns the next bit, most significant bit of
  a byte first, and advances; it fails with \<^verbatim>\<open>ExhaustedInput\<close> when no bits remain.
\<close>

definition readBit :: "bit_reader \<Rightarrow> coder_error + bool \<times> bit_reader" where
  "readBit r =
     (if position r < 8 * length (buffer r)
      then Inr (bit (buffer r ! (position r div 8)) (7 - position r mod 8),
                r\<lparr>position := position r + 1\<rparr>)
      else Inl ExhaustedInput)"

text \<open>
  Modelled from the spec: a sequence of \<^verbatim>\<open>readBit\<close> calls that stops at the first
  failure.
\<close>

fun read_bits :: "nat \<Rightarrow> bit_reader \<Rightarrow> coder_error + bool list \<times> bit_reader" where
  "read_bits 0 r = Inr ([], r)"
| "read_bits (Suc n) r =
     (case readBit r of
        Inl e \<Rightarrow> Inl e
      | Inr (b, r') \<Rightarrow>
          (case read_bits n r' of
             Inl e \<Rightarrow> Inl e
           | Inr (bs, r'') \<Rightarrow> Inr (b # bs, r'')))"

section \<open>What the claims speak of\<close>

text \<open>
  The shapes of the luminance images: 321 rows by 481 columns, or sideways. A sideways
  image is the one that the builder rotates. \<open>bsds_slot\<close> is what the builder stores
  for an image of either shape, \<open>lum_at\<close> the luminance of the \<open>i\<close>-th name of the
  listing, \<open>rotated\<close> and \<open>bad_image\<close> say that this luminance is sideways, or of
  neither shape, \<open>good_image\<close> that the image is read and converted without an
  exception and is of one of the two shapes.
\<close>

definition landscape :: "arr2 \<Rightarrow> bool" where
  "landscape a \<longleftrightarrow> nrows a = height_bsds \<and> ncols a = width_bsds"

definition sideways :: "arr2 \<Rightarrow> bool" where
  "sideways a \<longleftrightarrow> ncols a = height_bsds \<and> nrows a = width_bsds"

definition bsds_slot :: "arr2 \<Rightarrow> arr2" where
  "bsds_slot a = (if landscape a then slice2 a 1 height_bsds 1 width_bsds
                  else rot90 (slice2 a 1 width_bsds 1 height_bsds))"

definition lum_at :: "tools \<Rightarrow> filesystem \<Rightarrow> string \<Rightarrow> string list \<Rightarrow> nat \<Rightarrow> exn + arr2" where
  "lum_at T f folder names i = luminance_of T f (path_join folder (names ! i))"

definition rotated :: "tools \<Rightarrow> filesystem \<Rightarrow> string \<Rightarrow> string list \<Rightarrow> nat \<Rightarrow> bool" where
  "rotated T f folder names i \<longleftrightarrow>
     (case lum_at T f folder names i of Inl e \<Rightarrow> False | Inr lum \<Rightarrow> sideways lum)"

definition slots_ok :: "arr2 list \<Rightarrow> bool" where
  "slots_ok ref \<longleftrightarrow> (\<forall>a\<in>set ref. nrows a = 320 \<and> ncols a = 480)"

definition bad_image :: "tools \<Rightarrow> filesystem \<Rightarrow> string \<Rightarrow> string list \<Rightarrow> nat \<Rightarrow> bool" where
  "bad_image T f folder names i \<longleftrightarrow>
     (\<exists>lum. lum_at T f folder names i = Inr lum \<and> \<not> landscape lum \<and> \<not> sideways lum)"

definition good_image :: "tools \<Rightarrow> filesystem \<Rightarrow> string \<Rightarrow> string list \<Rightarrow> nat \<Rightarrow> bool" where
  "good_image T f folder names i \<longleftrightarrow>
     (case lum_at T f folder names i of Inl e \<Rightarrow> False | Inr lum \<Rightarrow> landscape lum \<or> sideways lum)"

text \<open>
  For \<^verbatim>\<open>create_imagenet\<close>: \<open>crop_at\<close> is what the two statements under
  \<^verbatim>\<open>try\<close> compute for one path, from the file system and the state of the random
  generator: a crop, or the exception raised. \<open>attempts\<close> is the list of these
  results for the names of the listing, taken in order; as in the builder, a crop is
  drawn at random while fewer than \<^verbatim>\<open>nb_training\<close> crops have been obtained, and the
  generator goes from one image to the next. \<open>crops_fit\<close> says that a crop is
  \<^verbatim>\<open>width_crop\<close> by \<^verbatim>\<open>width_crop\<close>.
\<close>

definition crop_at :: "tools \<Rightarrow> filesystem \<Rightarrow> int \<Rightarrow> bool \<Rightarrow> string \<Rightarrow> nat \<Rightarrow> (exn + arr2) \<times> nat" where
  "crop_at T f width_crop is_random p g =
     (case luminance_of T f p of
        Inl e \<Rightarrow> (Inl e, g)
      | Inr luminance \<Rightarrow> crop_option_2d T luminance width_crop is_random g)"

fun attempts ::
  "tools \<Rightarrow> filesystem \<Rightarrow> string \<Rightarrow> int \<Rightarrow> int \<Rightarrow> string list \<Rightarrow> nat \<Rightarrow> nat \<Rightarrow> (exn + arr2) list" where
  "attempts T f folder width_crop nb_training [] i g = []"
| "attempts T f folder width_crop nb_training (name # rest) i g =
     (case crop_at T f width_crop (int i < nb_training) (path_join folder name) g of
        (Inl e, g') \<Rightarrow> Inl e # attempts T f folder width_crop nb_training rest i g'
      | (Inr crop, g') \<Rightarrow> Inr crop # attempts T f folder width_crop nb_training rest (i + 1) g')"

definition crops_fit :: "tools \<Rightarrow> filesystem \<Rightarrow> string \<Rightarrow> int \<Rightarrow> string list \<Rightarrow> bool" where
  "crops_fit T f folder width_crop names \<longleftrightarrow>
     (\<forall>name\<in>set names. \<forall>b g c.
        fst (crop_at T f width_crop b (path_join folder name) g) = Inr c
          \<longrightarrow> nrows c = nat width_crop \<and> ncols c = nat width_crop)"

text \<open>
  A result lets the reading go on to the next image when it is a crop, or one of the two
  exceptions after which an image is skipped, \<^verbatim>\<open>TypeError\<close> and \<^verbatim>\<open>ValueError\<close>.
  \<open>crops_of\<close> are the crops among a list of results, \<open>crops_before\<close> those that
  come before the first result that does not let the reading go on, and
  \<open>first_uncaught\<close> is the exception of that result, if there is one. For a listing,
  \<open>collected\<close> are the crops obtained before the first exception that is neither
  \<^verbatim>\<open>TypeError\<close> nor \<^verbatim>\<open>ValueError\<close>, all the crops of the listing when there is
  no such exception, and \<open>stopped_by\<close> is that exception.
\<close>

definition goes_on :: "exn + arr2 \<Rightarrow> bool" where
  "goes_on r = (case r of Inl e \<Rightarrow> e = TypeError \<or> e = ValueError | Inr crop \<Rightarrow> True)"

definition crops_of :: "(exn + arr2) list \<Rightarrow> arr2 list" where
  "crops_of rs = concat (map (\<lambda>r. case r of Inl e \<Rightarrow> [] | Inr crop \<Rightarrow> [crop]) rs)"

definition crops_before :: "(exn + arr2) list \<Rightarrow> arr2 list" where
  "crops_before rs = crops_of (takeWhile goes_on rs)"

definition first_uncaught :: "(exn + arr2) list \<Rightarrow> exn option" where
  "first_uncaught rs =
     (case dropWhile goes_on rs of
        [] \<Rightarrow> None
      | r # rest \<Rightarrow> (case r of Inl e \<Rightarrow> Some e | Inr crop \<Rightarrow> None))"

definition collected ::
  "tools \<Rightarrow> filesystem \<Rightarrow> string \<Rightarrow> int \<Rightarrow> int \<Rightarrow> string list \<Rightarrow> nat \<Rightarrow> arr2 list" where
  "collected T f folder width_crop nb_training names g =
     crops_before (attempts T f folder width_crop nb_training names 0 g)"

definition stopped_by ::
  "tools \<Rightarrow> filesystem \<Rightarrow> string \<Rightarrow> int \<Rightarrow> int \<Rightarrow> string list \<Rightarrow> nat \<Rightarrow> exn option" where
  "stopped_by T f folder width_crop nb_training names g =
     first_uncaught (attempts T f folder width_crop nb_training names 0 g)"

text \<open>
  What the loop of \<^verbatim>\<open>create_imagenet\<close> leaves, started at the counter \<open>i\<close> on an
  array of \<open>N\<close> slices, when the crops collected from there on are \<open>cs\<close>: the
  counter and the array when \<open>N\<close> is reached or the listing ends, the exception
  otherwise.
\<close>

definition loop_result ::
  "nat \<Rightarrow> nat \<Rightarrow> arr2 list \<Rightarrow> arr2 list \<Rightarrow> exn option \<Rightarrow> exn + nat \<times> arr2 list" where
  "loop_result N i lum cs stop =
     (if N \<le> i + length cs then Inr (N, take i lum @ take (N - i) cs)
      else case stop of
             Some e \<Rightarrow> Inl e
           | None \<Rightarrow> Inr (i + length cs, take i lum @ cs @ drop (i + length cs) lum))"

text \<open>The shape of a luminance, when the image could be read and converted.\<close>

definition shape_of :: "exn + arr2 \<Rightarrow> (nat \<times> nat) option" where
  "shape_of r = (case r of Inl e \<Rightarrow> None | Inr a \<Rightarrow> Some (nrows a, ncols a))"

text \<open>
  The bits of a byte and of a buffer, most significant bit first; the bits a writer
  holds: those of its completed bytes, then those of the byte being filled.
\<close>

definition byte_bits :: "8 word \<Rightarrow> bool list" where
  "byte_bits x = [bit x 7, bit x 6, bit x 5, bit x 4, bit x 3, bit x 2, bit x 1, bit x 0]"

definition buffer_bits :: "8 word list \<Rightarrow> bool list" where
  "buffer_bits buf = concat (map byte_bits buf)"

definition pending :: "bit_writer \<Rightarrow> bool list" where
  "pending w = map (\<lambda>i. bit (partial w) (filled w - 1 - i)) [0..<filled w]"

definition written :: "bit_writer \<Rightarrow> bool list" where
  "written w = buffer_bits (bytes_out w) @ pending w"

section \<open>Sample worlds\<close>

text \<open>
  Concrete helpers, listings and worlds on which the theorems below are instantiated.
  The sample reader decides from the path alone: the paths in \<open>missing\<close> cannot be
  read, those in \<open>small\<close> hold a 10 by 10 image, a name whose last digit is 7 holds a
  sideways image, every other name an image of 321 rows and 481 columns; the pixels of
  an image depend on the length of its path. The sample cropper takes the top left
  corner, one pixel further down and right for a random crop on an odd state of the
  generator, and raises \<^verbatim>\<open>ValueError\<close> when the image is too small.
\<close>

definition demo_image :: "nat \<Rightarrow> nat \<Rightarrow> nat \<Rightarrow> arr3" where
  "demo_image h w s =
     \<lparr>dim0 = h, dim1 = w, dim2 = 3, at3 = (\<lambda>r c k. of_nat (r + c + k + s))\<rparr>"

definition demo_read :: "string list \<Rightarrow> string list \<Rightarrow> string \<Rightarrow> exn + arr3" where
  "demo_read missing small p =
     (if p \<in> set missing then Inl OSError
      else if p \<in> set small then Inr (demo_image 10 10 (length p))
      else if take 1 (drop (length p - 5) p) = ''7'' then Inr (demo_image 481 321 (length p))
      else Inr (demo_image 321 481 (length p)))"

definition demo_crop :: "arr2 \<Rightarrow> int \<Rightarrow> bool \<Rightarrow> nat \<Rightarrow> (exn + arr2) \<times> nat" where
  "demo_crop a width_crop is_random g =
     (if width_crop < 0 \<or> nrows a \<le> nat width_crop \<or> ncols a \<le> nat width_crop
      then (Inl ValueError, g)
      else (let k = (if is_random then g mod 2 else 0)
            in (Inr (slice2 a k (k + nat width_crop) k (k + nat width_crop)),
                if is_random then Suc g else g)))"

definition demo_tools :: "string list \<Rightarrow> string list \<Rightarrow> tools" where
  "demo_tools missing small =
     \<lparr>download_untar_archive = (\<lambda>source_url folder tar f. (Inr True, f)),
      untar_archive = (\<lambda>folder tar f. (Inr (), f)),
      clean_sort_list_strings = (\<lambda>names extensions. Inr names),
      read_image_mode = (\<lambda>p mode f. demo_read missing small p),
      rgb_to_ycbcr = (\<lambda>a. Inr a),
      crop_option_2d = demo_crop\<rparr>"

definition demo_names :: "string list" where
  "demo_names =
     map (\<lambda>i. [''0123456789'' ! (i div 10), ''0123456789'' ! (i mod 10)] @ ''.jpg'') [0..<100]"

definition demo_world :: "string list \<Rightarrow> string list \<Rightarrow> world" where
  "demo_world existing names =
     \<lparr>fs = \<lparr>files = (\<lambda>p. if p \<in> set existing then Some Other else None),
             folders = (\<lambda>p. if p = ''data/BSDS300/images/test/'' \<or> p = ''photos''
                              then Some names else None),
             writable = (\<lambda>p. True)\<rparr>,
      rng = 0, stdout = [], io_log = [],
      array_limit = 2 ^ 63 - 1, allocates = (\<lambda>n. n \<le> 2 ^ 32)\<rparr>"

text \<open>The top left pixel of an array, and the arrays stored in a file.\<close>

definition corner :: "arr2 \<Rightarrow> 8 word" where
  "corner a = at2 a 0 0"

definition stored :: "world \<Rightarrow> string \<Rightarrow> arr2 list" where
  "stored w p = (case files (fs w) p of Some (Npy v) \<Rightarrow> v | _ \<Rightarrow> [])"

section \<open>Existing outputs are left alone\<close>

text \<open>
  C8. When the two output files of a builder already exist, the builder returns without
  raising, and the world after the run is the world before it with two printed lines
  added: the file system is the same, so no file was written, and the log of images
  read and files written has not grown. This holds for \<^verbatim>\<open>create_bsds\<close> with the
  files at \<^verbatim>\<open>path_to_bsds\<close> and \<^verbatim>\<open>path_to_list_rotation\<close>, and for
  \<^verbatim>\<open>create_imagenet\<close> with the files at \<^verbatim>\<open>path_to_training\<close> and
  \<^verbatim>\<open>path_to_validation\<close>, whatever the helpers and the other arguments are.
\<close>

theorem builders_leave_existing_outputs:
  \<open>(isfile w path_to_bsds \<and> isfile w path_to_list_rotation \<longrightarrow>
      (\<exists>w'. create_bsds T source_url path_to_folder_rgbs path_to_bsds path_to_list_rotation
               path_to_tar w = (Returned, w')
            \<and> fs w' = fs w \<and> io_log w' = io_log w \<and> rng w' = rng w
            \<and> stdout w' = stdout w
                 @ [Text (''"'' @ path_to_bsds @ ''" and "'' @ path_to_list_rotation
                            @ ''" already exist.''),
                    Text ''Delete them manually to recreate the BSDS test set.'']))
   \<and> (isfile w path_to_training \<and> isfile w path_to_validation \<longrightarrow>
      (\<exists>w'. create_imagenet T path_to_folder_rgbs width_crop nb_training nb_validation
               path_to_training path_to_validation path_to_tar w = (Returned, w')
            \<and> fs w' = fs w \<and> io_log w' = io_log w \<and> rng w' = rng w
            \<and> stdout w' = stdout w
                 @ [Text (''"'' @ path_to_training @ ''" and "'' @ path_to_validation
                            @ ''" already exist.''),
                    Text ''Delete them manually to recreate the ImageNet training and validation sets.'']))\<close>
  by (simp add: create_bsds_def create_imagenet_def print_line_def)

theorem builders_leave_existing_outputs_witness:
  "isfile (demo_world [''bsds.npy'', ''rot.pkl'', ''tr.npy'', ''va.npy''] demo_names) ''bsds.npy''
   \<and> isfile (demo_world [''bsds.npy'', ''rot.pkl'', ''tr.npy'', ''va.npy''] demo_names) ''rot.pkl''
   \<and> fst (create_bsds (demo_tools [] []) ''http://host/BSDS300.tgz'' ''data'' ''bsds.npy'' ''rot.pkl''
            ''BSDS300.tgz'' (demo_world [''bsds.npy'', ''rot.pkl'', ''tr.npy'', ''va.npy''] demo_names))
       = Returned
   \<and> io_log (snd (create_bsds (demo_tools [] []) ''http://host/BSDS300.tgz'' ''data'' ''bsds.npy''
            ''rot.pkl'' ''BSDS300.tgz''
            (demo_world [''bsds.npy'', ''rot.pkl'', ''tr.npy'', ''va.npy''] demo_names))) = []
   \<and> fs (snd (create_bsds (demo_tools [] []) ''http://host/BSDS300.tgz'' ''data'' ''bsds.npy''
            ''rot.pkl'' ''BSDS300.tgz''
            (demo_world [''bsds.npy'', ''rot.pkl'', ''tr.npy'', ''va.npy''] demo_names)))
       = fs (demo_world [''bsds.npy'', ''rot.pkl'', ''tr.npy'', ''va.npy''] demo_names)
   \<and> isfile (demo_world [''bsds.npy'', ''rot.pkl'', ''tr.npy'', ''va.npy''] demo_names) ''tr.npy''
   \<and> isfile (demo_world [''bsds.npy'', ''rot.pkl'', ''tr.npy'', ''va.npy''] demo_names) ''va.npy''
   \<and> fst (create_imagenet (demo_tools [] []) ''data'' 16 2 1 ''tr.npy'' ''va.npy'' ''BSDS300.tgz''
            (demo_world [''bsds.npy'', ''rot.pkl'', ''tr.npy'', ''va.npy''] demo_names))
       = Returned
   \<and> io_log (snd (create_imagenet (demo_tools [] []) ''data'' 16 2 1 ''tr.npy'' ''va.npy''
            ''BSDS300.tgz'' (demo_world [''bsds.npy'', ''rot.pkl'', ''tr.npy'', ''va.npy''] demo_names)))
       = []
   \<and> fs (snd (create_imagenet (demo_tools [] []) ''data'' 16 2 1 ''tr.npy'' ''va.npy''
            ''BSDS300.tgz'' (demo_world [''bsds.npy'', ''rot.pkl'', ''tr.npy'', ''va.npy''] demo_names)))
       = fs (demo_world [''bsds.npy'', ''rot.pkl'', ''tr.npy'', ''va.npy''] demo_names)"
proof -
  let ?w = "demo_world [''bsds.npy'', ''rot.pkl'', ''tr.npy'', ''va.npy''] demo_names"
  have b: "isfile ?w ''bsds.npy''" "isfile ?w ''rot.pkl''" "isfile ?w ''tr.npy''" "isfile ?w ''va.npy''"
    by (simp_all add: isfile_def demo_world_def)
  have l: "io_log ?w = []" by (simp add: demo_world_def)
  from b l builders_leave_existing_outputs[where w = ?w and path_to_bsds = "''bsds.npy''"
      and path_to_list_rotation = "''rot.pkl''" and T = "demo_tools [] []"
      and source_url = "''http://host/BSDS300.tgz''" and path_to_folder_rgbs = "''data''"
      and path_to_tar = "''BSDS300.tgz''" and path_to_training = "''tr.npy''"
      and path_to_validation = "''va.npy''" and width_crop = 16 and nb_training = 2
      and nb_validation = 1]
  show ?thesis by auto
qed

section \<open>The BSDS test set\<close>

lemma broadcast_to_same: "nrows x = h \<Longrightarrow> ncols x = w \<Longrightarrow> broadcast_to x h w = x"
  by (simp add: broadcast_to_def)

lemma set_slice_Inr:
  "set_slice a i x = Inr a' \<longleftrightarrow>
     i < length a \<and> broadcastable x (nrows (a ! i)) (ncols (a ! i))
     \<and> a' = a[i := broadcast_to x (nrows (a ! i)) (ncols (a ! i))]"
  by (auto simp: set_slice_def)

lemma bsds_slot_shape:
  "landscape a \<or> sideways a \<Longrightarrow> nrows (bsds_slot a) = 320 \<and> ncols (bsds_slot a) = 480"
  by (auto simp: bsds_slot_def landscape_def sideways_def slice2_def rot90_def
        height_bsds_def width_bsds_def)

lemma set_slice_slot:
  assumes "set_slice a i (bsds_slot lum) = Inr a'" and "landscape lum \<or> sideways lum"
  shows "i < length a \<and> nrows (a ! i) = 320 \<and> ncols (a ! i) = 480 \<and> a' = a[i := bsds_slot lum]"
proof -
  from assms(2) have sh: "nrows (bsds_slot lum) = 320" "ncols (bsds_slot lum) = 480"
    using bsds_slot_shape by blast+
  from assms(1) have i: "i < length a"
    and b: "broadcastable (bsds_slot lum) (nrows (a ! i)) (ncols (a ! i))"
    and a': "a' = a[i := broadcast_to (bsds_slot lum) (nrows (a ! i)) (ncols (a ! i))]"
    by (simp_all add: set_slice_Inr)
  from b sh have t: "nrows (a ! i) = 320" "ncols (a ! i) = 480"
    by (auto simp: broadcastable_def)
  with sh a' i show ?thesis by (simp add: broadcast_to_same)
qed

lemma bsds_image_unfold:
  "bsds_image T folder names i (ref, rot) w =
     (case luminance_of T (fs w) (path_join folder (names ! i)) of
        Inl e \<Rightarrow> (Inl e, w\<lparr>io_log := io_log w @ [ImageRead (path_join folder (names ! i))]\<rparr>)
      | Inr lum \<Rightarrow>
          if landscape lum \<or> sideways lum then
            (case set_slice ref i (bsds_slot lum) of
               Inl e \<Rightarrow> (Inl e, w\<lparr>io_log := io_log w @ [ImageRead (path_join folder (names ! i))]\<rparr>)
             | Inr ref' \<Rightarrow> (Inr (ref', if sideways lum then rot @ [i] else rot),
                             w\<lparr>io_log := io_log w @ [ImageRead (path_join folder (names ! i))]\<rparr>))
          else (Inl ValueError, w\<lparr>io_log := io_log w @ [ImageRead (path_join folder (names ! i))]\<rparr>))"
  by (auto simp: bsds_image_def Let_def landscape_def sideways_def bsds_slot_def
        height_bsds_def width_bsds_def split: sum.splits)

lemma bsds_image_Inr:
  assumes "bsds_image T folder names i (ref, rot) w = (Inr (ref', rot'), w')"
  shows "\<exists>lum. luminance_of T (fs w) (path_join folder (names ! i)) = Inr lum
           \<and> (landscape lum \<or> sideways lum)
           \<and> i < length ref
           \<and> ref' = ref[i := bsds_slot lum]
           \<and> nrows (ref ! i) = 320 \<and> ncols (ref ! i) = 480
           \<and> rot' = (if sideways lum then rot @ [i] else rot)
           \<and> w' = w\<lparr>io_log := io_log w @ [ImageRead (path_join folder (names ! i))]\<rparr>"
proof -
  from assms obtain lum where l: "luminance_of T (fs w) (path_join folder (names ! i)) = Inr lum"
    by (cases "luminance_of T (fs w) (path_join folder (names ! i))")
       (simp_all add: bsds_image_unfold)
  from assms l have ok: "landscape lum \<or> sideways lum"
    by (auto simp: bsds_image_unfold split: if_splits)
  from assms l ok obtain r where r: "set_slice ref i (bsds_slot lum) = Inr r"
    by (cases "set_slice ref i (bsds_slot lum)") (simp_all add: bsds_image_unfold)
  from assms l ok r have "ref' = r" "rot' = (if sideways lum then rot @ [i] else rot)"
    "w' = w\<lparr>io_log := io_log w @ [ImageRead (path_join folder (names ! i))]\<rparr>"
    by (simp_all add: bsds_image_unfold)
  with set_slice_slot[OF r ok] l ok show ?thesis by simp
qed

lemma slots_ok_update:
  "slots_ok ref \<Longrightarrow> landscape lum \<or> sideways lum \<Longrightarrow> slots_ok (ref[i := bsds_slot lum])"
  unfolding slots_ok_def using bsds_slot_shape set_update_subset_insert by fastforce

lemma bsds_loop_Inr:
  assumes "bsds_loop T folder names js (ref, rot) w = (Inr (ref', rot'), w')"
  shows "length ref' = length ref
    \<and> w' = w\<lparr>io_log := io_log w @ map (\<lambda>i. ImageRead (path_join folder (names ! i))) js\<rparr>
    \<and> (\<forall>i\<in>set js. i < length ref
          \<and> (\<exists>lum. lum_at T (fs w) folder names i = Inr lum \<and> (landscape lum \<or> sideways lum)))
    \<and> rot' = rot @ filter (rotated T (fs w) folder names) js
    \<and> (\<forall>j. j \<notin> set js \<longrightarrow> ref' ! j = ref ! j)
    \<and> (distinct js \<longrightarrow>
         (\<forall>i\<in>set js. \<forall>lum. lum_at T (fs w) folder names i = Inr lum \<longrightarrow> ref' ! i = bsds_slot lum))"
  using assms
proof (induction js arbitrary: ref rot w)
  case Nil
  then show ?case by simp
next
  case (Cons i js)
  let ?w1 = "w\<lparr>io_log := io_log w @ [ImageRead (path_join folder (names ! i))]\<rparr>"
  from Cons.prems obtain st1 w1 where
    s1: "bsds_image T folder names i (ref, rot) w = (Inr st1, w1)"
    and l1: "bsds_loop T folder names js st1 w1 = (Inr (ref', rot'), w')"
    by (auto split: prod.splits sum.splits)
  obtain ref1 rot1 where st1: "st1 = (ref1, rot1)" by (cases st1)
  from bsds_image_Inr[OF s1[unfolded st1]] obtain lum where
    lum: "lum_at T (fs w) folder names i = Inr lum" and ok: "landscape lum \<or> sideways lum"
    and i: "i < length ref" and ref1: "ref1 = ref[i := bsds_slot lum]"
    and rot1: "rot1 = (if sideways lum then rot @ [i] else rot)" and w1: "w1 = ?w1"
    by (auto simp: lum_at_def)
  have fs1: "fs w1 = fs w" by (simp add: w1)
  note IH = Cons.IH[OF l1[unfolded st1], unfolded fs1]
  have r: "rotated T (fs w) folder names i = sideways lum"
    by (simp add: rotated_def lum)
  have a: "length ref' = length ref" using IH ref1 by simp
  have b: "w' = w\<lparr>io_log := io_log w @ map (\<lambda>i. ImageRead (path_join folder (names ! i))) (i # js)\<rparr>"
    using IH w1 by simp
  have c: "\<forall>k\<in>set (i # js). k < length ref
          \<and> (\<exists>lum. lum_at T (fs w) folder names k = Inr lum \<and> (landscape lum \<or> sideways lum))"
    using IH ref1 i lum ok by auto
  have d: "rot' = rot @ filter (rotated T (fs w) folder names) (i # js)"
    using IH rot1 r by simp
  have e: "\<forall>j. j \<notin> set (i # js) \<longrightarrow> ref' ! j = ref ! j"
    using IH ref1 by simp
  have f: "distinct (i # js) \<longrightarrow>
         (\<forall>k\<in>set (i # js). \<forall>lum. lum_at T (fs w) folder names k = Inr lum \<longrightarrow> ref' ! k = bsds_slot lum)"
  proof (intro impI ballI allI)
    fix k lum' assume dist: "distinct (i # js)" and k: "k \<in> set (i # js)"
      and lk: "lum_at T (fs w) folder names k = Inr lum'"
    show "ref' ! k = bsds_slot lum'"
    proof (cases "k = i")
      case True
      with dist have "i \<notin> set js" by simp
      with IH have "ref' ! i = ref1 ! i" by blast
      with True lk lum ref1 i show ?thesis by simp
    next
      case False
      with k have "k \<in> set js" by simp
      with IH dist lk show ?thesis by simp
    qed
  qed
  from a b c d e f show ?case by blast
qed

lemma bsds_loop_Inl:
  assumes "bsds_loop T folder names js (ref, rot) w = (Inl e, w')"
    and "slots_ok ref" and "\<forall>i\<in>set js. i < length ref"
  shows "((\<exists>i\<in>set js. lum_at T (fs w) folder names i = Inl e)
          \<or> (e = ValueError \<and> (\<exists>i\<in>set js. bad_image T (fs w) folder names i)))
       \<and> fs w' = fs w \<and> (\<forall>p c. Saved p c \<in> set (io_log w') \<longrightarrow> Saved p c \<in> set (io_log w))"
  using assms
proof (induction js arbitrary: ref rot w)
  case Nil
  then show ?case by simp
next
  case (Cons i js)
  let ?w1 = "w\<lparr>io_log := io_log w @ [ImageRead (path_join folder (names ! i))]\<rparr>"
  from Cons.prems(3) have i: "i < length ref" by simp
  show ?case
  proof (cases "lum_at T (fs w) folder names i")
    case (Inl e')
    with Cons.prems(1) have "e' = e" "w' = ?w1"
      by (simp_all add: bsds_image_unfold lum_at_def)
    with Inl show ?thesis by auto
  next
    case (Inr lum)
    show ?thesis
    proof (cases "landscape lum \<or> sideways lum")
      case False
      with Inr Cons.prems(1) have "e = ValueError" "w' = ?w1"
        by (simp_all add: bsds_image_unfold lum_at_def)
      moreover from Inr False have "bad_image T (fs w) folder names i"
        by (auto simp: bad_image_def)
      ultimately show ?thesis by auto
    next
      case True
      from Cons.prems(2) i have sh: "nrows (ref ! i) = 320" "ncols (ref ! i) = 480"
        by (simp_all add: slots_ok_def)
      with True i have ss: "set_slice ref i (bsds_slot lum) = Inr (ref[i := bsds_slot lum])"
        using bsds_slot_shape[OF True]
        by (simp add: set_slice_def broadcastable_def broadcast_to_same)
      from Inr True ss Cons.prems(1) have
        l: "bsds_loop T folder names js (ref[i := bsds_slot lum], if sideways lum then rot @ [i] else rot) ?w1
            = (Inl e, w')"
        by (simp add: bsds_image_unfold lum_at_def)
      have "slots_ok (ref[i := bsds_slot lum])" using Cons.prems(2) True by (rule slots_ok_update)
      moreover have "\<forall>k\<in>set js. k < length (ref[i := bsds_slot lum])" using Cons.prems(3) by simp
      ultimately have "((\<exists>i\<in>set js. lum_at T (fs ?w1) folder names i = Inl e)
          \<or> (e = ValueError \<and> (\<exists>i\<in>set js. bad_image T (fs ?w1) folder names i)))
       \<and> fs w' = fs ?w1 \<and> (\<forall>p c. Saved p c \<in> set (io_log w') \<longrightarrow> Saved p c \<in> set (io_log ?w1))"
        using Cons.IH[OF l] by blast
      then show ?thesis by auto
    qed
  qed
qed

lemma bsds_loop_ok:
  assumes "\<forall>i\<in>set js. \<exists>lum. lum_at T (fs w) folder names i = Inr lum \<and> (landscape lum \<or> sideways lum)"
    and "slots_ok ref" and "\<forall>i\<in>set js. i < length ref"
  shows "\<exists>st' w'. bsds_loop T folder names js (ref, rot) w = (Inr st', w')"
proof (cases "bsds_loop T folder names js (ref, rot) w")
  case (Pair r w')
  show ?thesis
  proof (cases r)
    case (Inl e)
    with Pair bsds_loop_Inl[OF _ assms(2,3)] assms(1) show ?thesis
      by (fastforce simp: bad_image_def)
  next
    case (Inr st')
    with Pair show ?thesis by simp
  qed
qed

lemma bsds_slot_landscape:
  "landscape lum \<Longrightarrow> at2 (bsds_slot lum) r c = at2 lum (r + 1) (c + 1)"
  by (simp add: bsds_slot_def slice2_def)

lemma bsds_slot_sideways:
  "sideways lum \<Longrightarrow> r < 320 \<Longrightarrow> at2 (bsds_slot lum) r c = at2 lum (c + 1) (320 - r)"
proof -
  assume s: "sideways lum" and r: "r < 320"
  from r have "Suc (319 - r) = 320 - r" by arith
  with s show ?thesis
    by (auto simp: bsds_slot_def slice2_def rot90_def landscape_def sideways_def
          height_bsds_def width_bsds_def)
qed

lemma slots_ok_zeros: "slots_ok (zeros n 320 480)"
  by (simp add: slots_ok_def zeros_def zeros2_def)

lemma write_file_cases:
  "write_file p c w = (r, w') \<Longrightarrow>
     (r = Inr () \<and> writable (fs w) p
        \<and> w' = w\<lparr>fs := (fs w)\<lparr>files := (files (fs w))(p \<mapsto> c)\<rparr>, io_log := io_log w @ [Saved p c]\<rparr>)
     \<or> (r = Inl OSError \<and> \<not> writable (fs w) p \<and> w' = w)"
  by (auto simp: write_file_def split: if_splits)

lemma bsds_build_unfold:
  assumes "bsds_list_names T folder w1 = Inr names" and "length names = 100"
  shows "bsds_build T folder pb pr w1 =
     (case bsds_loop T (path_to_folder_test folder) names [0..<100] (zeros 100 320 480, []) w1 of
        (Inl e, w2) \<Rightarrow> (Raised e, w2)
      | (Inr (ref, rot), w2) \<Rightarrow>
          (case write_file (npy_name pb) (Npy ref) w2 of
             (Inl e, w3) \<Rightarrow> (Raised e, w3)
           | (Inr u, w3) \<Rightarrow>
               (case write_file pr (Pickle rot) w3 of
                  (Inl e, w4) \<Rightarrow> (Raised e, w4)
                | (Inr u', w4) \<Rightarrow> (Returned, w4))))"
  using assms
  by (simp add: bsds_build_def Let_def height_bsds_def width_bsds_def numpy_save_def
        pickle_dump_def split: prod.splits sum.splits)

lemma bsds_build_Returned:
  assumes run: "bsds_build T folder pb pr w1 = (Returned, w')"
  shows "\<exists>names ref rot w2.
      bsds_list_names T folder w1 = Inr names \<and> length names = 100
    \<and> bsds_loop T (path_to_folder_test folder) names [0..<100] (zeros 100 320 480, []) w1
        = (Inr (ref, rot), w2)
    \<and> w' = w2\<lparr>fs := (fs w2)\<lparr>files := ((files (fs w2))(npy_name pb \<mapsto> Npy ref))(pr \<mapsto> Pickle rot)\<rparr>,
              io_log := io_log w2 @ [Saved (npy_name pb) (Npy ref), Saved pr (Pickle rot)]\<rparr>"
proof -
  from run obtain names where n: "bsds_list_names T folder w1 = Inr names"
    by (cases "bsds_list_names T folder w1") (simp_all add: bsds_build_def)
  from run n have len: "length names = 100"
    by (auto simp: bsds_build_def split: if_splits)
  note u = bsds_build_unfold[OF n len, of pb pr]
  obtain r w2 where l: "bsds_loop T (path_to_folder_test folder) names [0..<100] (zeros 100 320 480, []) w1 = (r, w2)"
    by (cases "bsds_loop T (path_to_folder_test folder) names [0..<100] (zeros 100 320 480, []) w1")
  from run u l obtain ref rot where r: "r = Inr (ref, rot)"
    by (cases r) auto
  obtain r3 w3 where s1: "write_file (npy_name pb) (Npy ref) w2 = (r3, w3)"
    by (cases "write_file (npy_name pb) (Npy ref) w2")
  from run u l r s1 have r3: "r3 = Inr ()" by (cases r3) auto
  obtain r4 w4 where s2: "write_file pr (Pickle rot) w3 = (r4, w4)"
    by (cases "write_file pr (Pickle rot) w3")
  from run u l r s1 r3 s2 have r4: "r4 = Inr ()" and w4: "w4 = w'" by (cases r4; auto)+
  from write_file_cases[OF s1] r3 have w3:
    "w3 = w2\<lparr>fs := (fs w2)\<lparr>files := (files (fs w2))(npy_name pb \<mapsto> Npy ref)\<rparr>,
             io_log := io_log w2 @ [Saved (npy_name pb) (Npy ref)]\<rparr>" by auto
  from write_file_cases[OF s2] r4 have
    "w4 = w3\<lparr>fs := (fs w3)\<lparr>files := (files (fs w3))(pr \<mapsto> Pickle rot)\<rparr>,
             io_log := io_log w3 @ [Saved pr (Pickle rot)]\<rparr>" by auto
  with w3 w4 have "w' = w2\<lparr>fs := (fs w2)\<lparr>files := ((files (fs w2))(npy_name pb \<mapsto> Npy ref))(pr \<mapsto> Pickle rot)\<rparr>,
              io_log := io_log w2 @ [Saved (npy_name pb) (Npy ref), Saved pr (Pickle rot)]\<rparr>"
    by simp
  with n len l r show ?thesis by blast
qed

lemma create_bsds_build:
  assumes "\<not> (isfile w pb \<and> isfile w pr)"
  shows "create_bsds T url folder pb pr tar w =
     (case bsds_fetch T url folder tar w of
        (Inl e, w1) \<Rightarrow> (Raised e, w1)
      | (Inr u, w1) \<Rightarrow> bsds_build T folder pb pr w1)"
  by (simp only: create_bsds_def assms if_False)

lemma good_image_iff:
  "good_image T f folder names i \<longleftrightarrow>
     (\<exists>lum. lum_at T f folder names i = Inr lum \<and> (landscape lum \<or> sideways lum))"
  by (simp add: good_image_def split: sum.splits)

lemma not_good_image:
  "\<not> good_image T f folder names i \<longleftrightarrow>
     (\<exists>e. lum_at T f folder names i = Inl e) \<or> bad_image T f folder names i"
  by (auto simp: good_image_def bad_image_def split: sum.splits)

lemma bsds_loop_append:
  "bsds_loop T folder names (xs @ ys) st w =
     (case bsds_loop T folder names xs st w of
        (Inl e, w') \<Rightarrow> (Inl e, w')
      | (Inr st', w') \<Rightarrow> bsds_loop T folder names ys st' w')"
  by (induction xs arbitrary: st w) (auto split: prod.splits sum.splits)

text \<open>The run of the loop up to the first image that is not good.\<close>

lemma bsds_loop_stops:
  assumes i: "i < 100"
    and before: "\<forall>j<i. good_image T (fs w) folder names j"
    and here: "lum_at T (fs w) folder names i = Inl e
               \<or> (bad_image T (fs w) folder names i \<and> e = ValueError)"
  shows "bsds_loop T folder names [0..<100] (zeros 100 320 480, []) w
         = (Inl e, w\<lparr>io_log := io_log w
                       @ map (\<lambda>k. ImageRead (path_join folder (names ! k))) [0..<Suc i]\<rparr>)"
proof -
  let ?z = "zeros 100 320 480"
  from i have split: "[0..<100] = [0..<i] @ i # [Suc i..<100]"
    by (metis upt_conv_Cons upt_add_eq_append le0 le_add_diff_inverse less_imp_le_nat plus_nat.add_0)
  have g: "\<forall>k\<in>set [0..<i]. \<exists>lum. lum_at T (fs w) folder names k = Inr lum
              \<and> (landscape lum \<or> sideways lum)"
    using before by (simp add: good_image_iff)
  have idx: "\<forall>k\<in>set [0..<i]. k < length ?z" using i by (simp add: zeros_def)
  from bsds_loop_ok[OF g slots_ok_zeros idx, of "[]"] obtain st' w' where
    l: "bsds_loop T folder names [0..<i] (?z, []) w = (Inr st', w')" by blast
  obtain ref rot where st: "st' = (ref, rot)" by (cases st')
  note L = bsds_loop_Inr[OF l[unfolded st]]
  from L have w': "w' = w\<lparr>io_log := io_log w @ map (\<lambda>k. ImageRead (path_join folder (names ! k))) [0..<i]\<rparr>"
    by blast
  then have fs': "fs w' = fs w" by simp
  have im: "bsds_image T folder names i (ref, rot) w'
            = (Inl e, w'\<lparr>io_log := io_log w' @ [ImageRead (path_join folder (names ! i))]\<rparr>)"
  proof (cases "lum_at T (fs w) folder names i")
    case (Inl e')
    with here have "e' = e" by (auto simp: bad_image_def)
    with Inl show ?thesis by (simp add: bsds_image_unfold fs' lum_at_def)
  next
    case (Inr lum)
    with here have "\<not> landscape lum" "\<not> sideways lum" "e = ValueError"
      by (auto simp: bad_image_def)
    with Inr show ?thesis by (simp add: bsds_image_unfold fs' lum_at_def)
  qed
  have "bsds_loop T folder names [0..<100] (?z, []) w
        = (Inl e, w'\<lparr>io_log := io_log w' @ [ImageRead (path_join folder (names ! i))]\<rparr>)"
    by (simp add: split bsds_loop_append l st im)
  then show ?thesis by (simp add: w')
qed

lemma first_not_good:
  assumes "\<exists>i<n. \<not> P i"
  shows "\<exists>i<n. (\<forall>j<i. P j) \<and> \<not> P (i::nat)"
proof -
  from assms obtain i where i: "i < n \<and> \<not> P i" by blast
  define k where "k = (LEAST i. i < n \<and> \<not> P i)"
  from i have a: "k < n \<and> \<not> P k" unfolding k_def by (rule LeastI)
  have "\<forall>j<k. P j"
  proof (intro allI impI)
    fix j assume "j < k"
    then have "\<not> (j < n \<and> \<not> P j)" unfolding k_def by (rule not_less_Least)
    with \<open>j < k\<close> a show "P j" by simp
  qed
  with a show ?thesis by blast
qed

text \<open>What a run that builds the set does once the listing has 100 names.\<close>

lemma bsds_build_stops:
  assumes n: "bsds_list_names T folder w1 = Inr names" and len: "length names = 100"
    and i: "i < 100"
    and before: "\<forall>j<i. good_image T (fs w1) (path_to_folder_test folder) names j"
    and here: "lum_at T (fs w1) (path_to_folder_test folder) names i = Inl e
               \<or> (bad_image T (fs w1) (path_to_folder_test folder) names i \<and> e = ValueError)"
  shows "bsds_build T folder pb pr w1
         = (Raised e, w1\<lparr>io_log := io_log w1
               @ map (\<lambda>k. ImageRead (path_join (path_to_folder_test folder) (names ! k))) [0..<Suc i]\<rparr>)"
  by (simp add: bsds_build_unfold[OF n len] bsds_loop_stops[OF i before here])

lemma bsds_build_saves:
  assumes n: "bsds_list_names T folder w1 = Inr names" and len: "length names = 100"
    and good: "\<forall>i<100. good_image T (fs w1) (path_to_folder_test folder) names i"
  shows "fst (bsds_build T folder pb pr w1)
         = (if writable (fs w1) (npy_name pb) \<and> writable (fs w1) pr then Returned
            else Raised OSError)"
proof -
  let ?ft = "path_to_folder_test folder"
  have idx: "\<forall>i\<in>set [0..<100]. i < length (zeros 100 320 480)" by (simp add: zeros_def)
  from good have g: "\<forall>i\<in>set [0..<100]. \<exists>lum. lum_at T (fs w1) ?ft names i = Inr lum
                  \<and> (landscape lum \<or> sideways lum)" by (simp add: good_image_iff)
  from bsds_loop_ok[OF g slots_ok_zeros idx, of "[]"] obtain st' w2 where
    l: "bsds_loop T ?ft names [0..<100] (zeros 100 320 480, []) w1 = (Inr st', w2)" by blast
  obtain ref rot where st: "st' = (ref, rot)" by (cases st')
  from bsds_loop_Inr[OF l[unfolded st]] have fs2: "fs w2 = fs w1" by simp
  show ?thesis
    by (simp add: bsds_build_unfold[OF n len] l st write_file_def fs2)
qed

lemma bsds_build_raises_iff:
  assumes n: "bsds_list_names T folder w1 = Inr names" and len: "length names = 100"
    and e: "e \<noteq> OSError"
  shows "fst (bsds_build T folder pb pr w1) = Raised e \<longleftrightarrow>
     (\<exists>i<100. (\<forall>j<i. good_image T (fs w1) (path_to_folder_test folder) names j)
        \<and> (lum_at T (fs w1) (path_to_folder_test folder) names i = Inl e
            \<or> (bad_image T (fs w1) (path_to_folder_test folder) names i \<and> e = ValueError)))"
    (is "?l \<longleftrightarrow> ?r")
proof
  assume ?r
  then obtain i where i: "i < 100"
    and before: "\<forall>j<i. good_image T (fs w1) (path_to_folder_test folder) names j"
    and here: "lum_at T (fs w1) (path_to_folder_test folder) names i = Inl e
               \<or> (bad_image T (fs w1) (path_to_folder_test folder) names i \<and> e = ValueError)"
    by blast
  from bsds_build_stops[OF n len i before here, of pb pr] show ?l by simp
next
  assume l: ?l
  let ?ft = "path_to_folder_test folder"
  show ?r
  proof (cases "\<forall>i<100. good_image T (fs w1) ?ft names i")
    case True
    from bsds_build_saves[OF n len True, of pb pr] l e show ?thesis by (simp split: if_splits)
  next
    case False
    then have "\<exists>i<100. \<not> good_image T (fs w1) ?ft names i" by simp
    from first_not_good[OF this] obtain i where i: "i < 100"
      and before: "\<forall>j<i. good_image T (fs w1) ?ft names j"
      and ng: "\<not> good_image T (fs w1) ?ft names i" by blast
    from ng have "(\<exists>e'. lum_at T (fs w1) ?ft names i = Inl e') \<or> bad_image T (fs w1) ?ft names i"
      by (simp add: not_good_image)
    then obtain e' where here: "lum_at T (fs w1) ?ft names i = Inl e'
               \<or> (bad_image T (fs w1) ?ft names i \<and> e' = ValueError)" by blast
    from bsds_build_stops[OF n len i before here, of pb pr] l have "e' = e" by simp
    with i before here show ?thesis by blast
  qed
qed

text \<open>
  C9, as the code has it. Take a run of \<^verbatim>\<open>create_bsds\<close> that builds the set (the two
  output files do not both exist).

  If the run returns, the archive step and the listing succeeded, the listing has 100
  names, the 100 images were read in the order of the listing, and then the array and
  the list of rotations were saved, in this order, to \<^verbatim>\<open>path_to_bsds\<close> (with
  \<^verbatim>\<open>.npy\<close> appended by \<^verbatim>\<open>numpy.save\<close> when missing) and to
  \<^verbatim>\<open>path_to_list_rotation\<close>. The array has 100 slices of 320 rows and 480 columns of
  \<^verbatim>\<open>uint8\<close>. Slice \<open>i\<close> is the luminance of image \<open>i\<close> without its first row and
  first column when the image has 321 rows and 481 columns; when it has 481 rows and 321
  columns the slice is that cut rotated by a counterclockwise quarter turn. The saved
  list holds, in increasing order, exactly the indices of the images of the second kind.

  An exception of the archive step or of the listing ends the run with that exception.
  When both succeed, a listing that does not have exactly 100 names makes the run raise
  \<^verbatim>\<open>RuntimeError\<close> before any image is read. With 100 names the images are taken in
  the order of the listing, and the run stops at the first image \<open>i\<close> that is not good,
  having read the images 0 to \<open>i\<close> and written nothing: when reading or converting
  image \<open>i\<close> raises an exception the run raises that very exception, and when image
  \<open>i\<close> is of neither shape the run raises \<^verbatim>\<open>ValueError\<close>. When all 100 images are
  good the run returns if both output files can be opened for writing and raises
  \<^verbatim>\<open>OSError\<close> otherwise.

  Hence the run raises \<^verbatim>\<open>RuntimeError\<close> if and only if the listing does not have
  exactly 100 names or reading or converting the first image that is not good raises
  \<^verbatim>\<open>RuntimeError\<close>; and it raises \<^verbatim>\<open>ValueError\<close> if and only if the listing has
  exactly 100 names and the first image that is not good is of neither shape, or reading
  or converting it raises \<^verbatim>\<open>ValueError\<close>.
\<close>
theorem create_bsds_builds_test_set:
  assumes build: "\<not> (isfile w path_to_bsds \<and> isfile w path_to_list_rotation)"
  shows
   "(\<forall>w'. create_bsds T source_url path_to_folder_rgbs path_to_bsds path_to_list_rotation
             path_to_tar w = (Returned, w') \<longrightarrow>
      (\<exists>w1 list_names reference_uint8 list_rotation.
          bsds_fetch T source_url path_to_folder_rgbs path_to_tar w = (Inr (), w1)
        \<and> bsds_list_names T path_to_folder_rgbs w1 = Inr list_names
        \<and> length list_names = 100
        \<and> io_log w' = io_log w1
             @ map (\<lambda>i. ImageRead (path_join (path_to_folder_test path_to_folder_rgbs) (list_names ! i)))
                 [0..<100]
             @ [Saved (npy_name path_to_bsds) (Npy reference_uint8),
                Saved path_to_list_rotation (Pickle list_rotation)]
        \<and> files (fs w') = ((files (fs w1))(npy_name path_to_bsds \<mapsto> Npy reference_uint8))
                             (path_to_list_rotation \<mapsto> Pickle list_rotation)
        \<and> length reference_uint8 = 100
        \<and> list_rotation
            = filter (rotated T (fs w1) (path_to_folder_test path_to_folder_rgbs) list_names) [0..<100]
        \<and> (\<forall>i<100. \<exists>lum.
              lum_at T (fs w1) (path_to_folder_test path_to_folder_rgbs) list_names i = Inr lum
            \<and> nrows (reference_uint8 ! i) = 320 \<and> ncols (reference_uint8 ! i) = 480
            \<and> (if i \<in> set list_rotation
               then nrows lum = 481 \<and> ncols lum = 321
                  \<and> (\<forall>r<320. \<forall>c<480. at2 (reference_uint8 ! i) r c = at2 lum (c + 1) (320 - r))
               else nrows lum = 321 \<and> ncols lum = 481
                  \<and> (\<forall>r<320. \<forall>c<480. at2 (reference_uint8 ! i) r c = at2 lum (r + 1) (c + 1))))))
  \<and> (\<forall>w1 e. bsds_fetch T source_url path_to_folder_rgbs path_to_tar w = (Inl e, w1) \<longrightarrow>
        create_bsds T source_url path_to_folder_rgbs path_to_bsds path_to_list_rotation
          path_to_tar w = (Raised e, w1))
  \<and> (\<forall>w1. bsds_fetch T source_url path_to_folder_rgbs path_to_tar w = (Inr (), w1) \<longrightarrow>
        (\<forall>e. bsds_list_names T path_to_folder_rgbs w1 = Inl e \<longrightarrow>
           create_bsds T source_url path_to_folder_rgbs path_to_bsds path_to_list_rotation
             path_to_tar w = (Raised e, w1))
      \<and> (\<forall>list_names. bsds_list_names T path_to_folder_rgbs w1 = Inr list_names \<longrightarrow>
            (length list_names \<noteq> 100 \<longrightarrow>
               create_bsds T source_url path_to_folder_rgbs path_to_bsds path_to_list_rotation
                 path_to_tar w = (Raised RuntimeError, w1))
          \<and> (length list_names = 100 \<longrightarrow>
               (\<forall>i<100.
                  (\<forall>j<i. good_image T (fs w1) (path_to_folder_test path_to_folder_rgbs)
                            list_names j) \<longrightarrow>
                  (\<forall>e. lum_at T (fs w1) (path_to_folder_test path_to_folder_rgbs) list_names i
                          = Inl e \<longrightarrow>
                     create_bsds T source_url path_to_folder_rgbs path_to_bsds
                       path_to_list_rotation path_to_tar w
                     = (Raised e,
                        w1\<lparr>io_log := io_log w1
                           @ map (\<lambda>k. ImageRead (path_join (path_to_folder_test path_to_folder_rgbs)
                                                   (list_names ! k)))
                               [0..<Suc i]\<rparr>))
                \<and> (bad_image T (fs w1) (path_to_folder_test path_to_folder_rgbs) list_names i \<longrightarrow>
                     create_bsds T source_url path_to_folder_rgbs path_to_bsds
                       path_to_list_rotation path_to_tar w
                     = (Raised ValueError,
                        w1\<lparr>io_log := io_log w1
                           @ map (\<lambda>k. ImageRead (path_join (path_to_folder_test path_to_folder_rgbs)
                                                   (list_names ! k)))
                               [0..<Suc i]\<rparr>)))
             \<and> ((\<forall>i<100. good_image T (fs w1) (path_to_folder_test path_to_folder_rgbs)
                             list_names i) \<longrightarrow>
                  fst (create_bsds T source_url path_to_folder_rgbs path_to_bsds
                         path_to_list_rotation path_to_tar w)
                  = (if writable (fs w1) (npy_name path_to_bsds)
                        \<and> writable (fs w1) path_to_list_rotation
                     then Returned else Raised OSError)))
          \<and> (fst (create_bsds T source_url path_to_folder_rgbs path_to_bsds path_to_list_rotation
                     path_to_tar w) = Raised RuntimeError
              \<longleftrightarrow> length list_names \<noteq> 100
                  \<or> (\<exists>i<100.
                        (\<forall>j<i. good_image T (fs w1) (path_to_folder_test path_to_folder_rgbs)
                                  list_names j)
                      \<and> lum_at T (fs w1) (path_to_folder_test path_to_folder_rgbs) list_names i
                          = Inl RuntimeError))
          \<and> (fst (create_bsds T source_url path_to_folder_rgbs path_to_bsds path_to_list_rotation
                     path_to_tar w) = Raised ValueError
              \<longleftrightarrow> length list_names = 100
                  \<and> (\<exists>i<100.
                        (\<forall>j<i. good_image T (fs w1) (path_to_folder_test path_to_folder_rgbs)
                                  list_names j)
                      \<and> (bad_image T (fs w1) (path_to_folder_test path_to_folder_rgbs) list_names i
                          \<or> lum_at T (fs w1) (path_to_folder_test path_to_folder_rgbs) list_names i
                              = Inl ValueError)))))"
    (is "?returned \<and> ?fetch \<and> ?built")
proof (intro conjI)
  let ?ft = "path_to_folder_test path_to_folder_rgbs"
  let ?run = "create_bsds T source_url path_to_folder_rgbs path_to_bsds path_to_list_rotation
                path_to_tar w"
  note cb = create_bsds_build[OF build, of T source_url path_to_folder_rgbs path_to_tar]
  show ?returned
  proof (intro allI impI)
    fix w' assume run: "?run = (Returned, w')"
    obtain r0 w1 where f: "bsds_fetch T source_url path_to_folder_rgbs path_to_tar w = (r0, w1)"
      by (cases "bsds_fetch T source_url path_to_folder_rgbs path_to_tar w")
    from run cb f have r0: "r0 = Inr ()" by (cases r0) auto
    from run cb f r0 have b: "bsds_build T path_to_folder_rgbs path_to_bsds path_to_list_rotation w1
                               = (Returned, w')" by simp
    from bsds_build_Returned[OF b] obtain names ref rot w2 where
      n: "bsds_list_names T path_to_folder_rgbs w1 = Inr names" and len: "length names = 100"
      and l: "bsds_loop T ?ft names [0..<100] (zeros 100 320 480, []) w1 = (Inr (ref, rot), w2)"
      and w': "w' = w2\<lparr>fs := (fs w2)\<lparr>files := ((files (fs w2))(npy_name path_to_bsds \<mapsto> Npy ref))
                                             (path_to_list_rotation \<mapsto> Pickle rot)\<rparr>,
              io_log := io_log w2 @ [Saved (npy_name path_to_bsds) (Npy ref),
                                     Saved path_to_list_rotation (Pickle rot)]\<rparr>"
      by blast
    note L = bsds_loop_Inr[OF l]
    from L have lr: "length ref = 100" by (simp add: zeros_def)
    from L have w2: "w2 = w1\<lparr>io_log := io_log w1 @ map (\<lambda>i. ImageRead (path_join ?ft (names ! i))) [0..<100]\<rparr>"
      by blast
    from L have rot: "rot = filter (rotated T (fs w1) ?ft names) [0..<100]" by simp
    have each: "\<exists>lum. lum_at T (fs w1) ?ft names i = Inr lum
            \<and> nrows (ref ! i) = 320 \<and> ncols (ref ! i) = 480
            \<and> (if i \<in> set rot
               then nrows lum = 481 \<and> ncols lum = 321
                  \<and> (\<forall>r<320. \<forall>c<480. at2 (ref ! i) r c = at2 lum (c + 1) (320 - r))
               else nrows lum = 321 \<and> ncols lum = 481
                  \<and> (\<forall>r<320. \<forall>c<480. at2 (ref ! i) r c = at2 lum (r + 1) (c + 1)))"
      if i: "i < 100" for i
    proof -
      from i have mem_i: "i \<in> set [0..<100]" by simp
      from L have "\<forall>i\<in>set [0..<100]. \<exists>lum. lum_at T (fs w1) ?ft names i = Inr lum
                      \<and> (landscape lum \<or> sideways lum)" by blast
      with mem_i obtain lum where lum: "lum_at T (fs w1) ?ft names i = Inr lum"
        and ok: "landscape lum \<or> sideways lum" by blast
      from L have "\<forall>i\<in>set [0..<100]. \<forall>lum. lum_at T (fs w1) ?ft names i = Inr lum
                      \<longrightarrow> ref ! i = bsds_slot lum" by simp
      with mem_i lum have slot: "ref ! i = bsds_slot lum" by blast
      have mem: "i \<in> set rot \<longleftrightarrow> sideways lum"
        using i lum by (simp add: rot rotated_def)
      show ?thesis
      proof (cases "sideways lum")
        case True
        with lum slot mem bsds_slot_shape[OF ok] show ?thesis
          by (auto simp: bsds_slot_sideways sideways_def height_bsds_def width_bsds_def)
      next
        case False
        with ok have "landscape lum" by simp
        with lum slot mem False bsds_slot_shape[OF ok] show ?thesis
          by (auto simp: bsds_slot_landscape landscape_def height_bsds_def width_bsds_def)
      qed
    qed
    have "io_log w' = io_log w1 @ map (\<lambda>i. ImageRead (path_join ?ft (names ! i))) [0..<100]
             @ [Saved (npy_name path_to_bsds) (Npy ref), Saved path_to_list_rotation (Pickle rot)]"
      by (simp add: w' w2)
    moreover have "files (fs w') = ((files (fs w1))(npy_name path_to_bsds \<mapsto> Npy ref))
                             (path_to_list_rotation \<mapsto> Pickle rot)"
      by (simp add: w' w2)
    ultimately show "\<exists>w1 list_names reference_uint8 list_rotation.
          bsds_fetch T source_url path_to_folder_rgbs path_to_tar w = (Inr (), w1)
        \<and> bsds_list_names T path_to_folder_rgbs w1 = Inr list_names
        \<and> length list_names = 100
        \<and> io_log w' = io_log w1
             @ map (\<lambda>i. ImageRead (path_join ?ft (list_names ! i))) [0..<100]
             @ [Saved (npy_name path_to_bsds) (Npy reference_uint8),
                Saved path_to_list_rotation (Pickle list_rotation)]
        \<and> files (fs w') = ((files (fs w1))(npy_name path_to_bsds \<mapsto> Npy reference_uint8))
                             (path_to_list_rotation \<mapsto> Pickle list_rotation)
        \<and> length reference_uint8 = 100
        \<and> list_rotation = filter (rotated T (fs w1) ?ft list_names) [0..<100]
        \<and> (\<forall>i<100. \<exists>lum.
              lum_at T (fs w1) ?ft list_names i = Inr lum
            \<and> nrows (reference_uint8 ! i) = 320 \<and> ncols (reference_uint8 ! i) = 480
            \<and> (if i \<in> set list_rotation
               then nrows lum = 481 \<and> ncols lum = 321
                  \<and> (\<forall>r<320. \<forall>c<480. at2 (reference_uint8 ! i) r c = at2 lum (c + 1) (320 - r))
               else nrows lum = 321 \<and> ncols lum = 481
                  \<and> (\<forall>r<320. \<forall>c<480. at2 (reference_uint8 ! i) r c = at2 lum (r + 1) (c + 1))))"
      using f r0 n len lr rot each by blast
  qed
  show ?fetch by (simp add: cb)
  show ?built
  proof (intro allI impI)
    fix w1
    assume f: "bsds_fetch T source_url path_to_folder_rgbs path_to_tar w = (Inr (), w1)"
    from cb f have run: "?run = bsds_build T path_to_folder_rgbs path_to_bsds path_to_list_rotation w1"
      by simp
    have a: "\<forall>e. bsds_list_names T path_to_folder_rgbs w1 = Inl e \<longrightarrow> ?run = (Raised e, w1)"
      by (simp add: run bsds_build_def)
    have b: "(length names \<noteq> 100 \<longrightarrow> ?run = (Raised RuntimeError, w1))
          \<and> (length names = 100 \<longrightarrow>
               (\<forall>i<100. (\<forall>j<i. good_image T (fs w1) ?ft names j) \<longrightarrow>
                  (\<forall>e. lum_at T (fs w1) ?ft names i = Inl e \<longrightarrow>
                     ?run = (Raised e, w1\<lparr>io_log := io_log w1
                              @ map (\<lambda>k. ImageRead (path_join ?ft (names ! k))) [0..<Suc i]\<rparr>))
                \<and> (bad_image T (fs w1) ?ft names i \<longrightarrow>
                     ?run = (Raised ValueError, w1\<lparr>io_log := io_log w1
                              @ map (\<lambda>k. ImageRead (path_join ?ft (names ! k))) [0..<Suc i]\<rparr>)))
             \<and> ((\<forall>i<100. good_image T (fs w1) ?ft names i) \<longrightarrow>
                  fst ?run
                  = (if writable (fs w1) (npy_name path_to_bsds) \<and> writable (fs w1) path_to_list_rotation
                     then Returned else Raised OSError)))
          \<and> (fst ?run = Raised RuntimeError \<longleftrightarrow>
               length names \<noteq> 100
               \<or> (\<exists>i<100. (\<forall>j<i. good_image T (fs w1) ?ft names j)
                     \<and> lum_at T (fs w1) ?ft names i = Inl RuntimeError))
          \<and> (fst ?run = Raised ValueError \<longleftrightarrow>
               length names = 100
               \<and> (\<exists>i<100. (\<forall>j<i. good_image T (fs w1) ?ft names j)
                     \<and> (bad_image T (fs w1) ?ft names i
                         \<or> lum_at T (fs w1) ?ft names i = Inl ValueError)))"
      if n: "bsds_list_names T path_to_folder_rgbs w1 = Inr names" for names
    proof (cases "length names = 100")
      case False
      with n have "?run = (Raised RuntimeError, w1)" by (simp add: run bsds_build_def)
      with False show ?thesis by simp
    next
      case len: True
      have stop: "?run = (Raised e, w1\<lparr>io_log := io_log w1
                      @ map (\<lambda>k. ImageRead (path_join ?ft (names ! k))) [0..<Suc i]\<rparr>)"
        if "i < 100" "\<forall>j<i. good_image T (fs w1) ?ft names j"
          "lum_at T (fs w1) ?ft names i = Inl e \<or> (bad_image T (fs w1) ?ft names i \<and> e = ValueError)"
        for i e
        unfolding run using n len that by (rule bsds_build_stops)
      have saves: "fst ?run
                  = (if writable (fs w1) (npy_name path_to_bsds) \<and> writable (fs w1) path_to_list_rotation
                     then Returned else Raised OSError)"
        if "\<forall>i<100. good_image T (fs w1) ?ft names i"
        unfolding run using n len that by (rule bsds_build_saves)
      have re: "fst ?run = Raised RuntimeError \<longleftrightarrow>
               (\<exists>i<100. (\<forall>j<i. good_image T (fs w1) ?ft names j)
                     \<and> lum_at T (fs w1) ?ft names i = Inl RuntimeError)"
        unfolding run using bsds_build_raises_iff[OF n len, of RuntimeError path_to_bsds path_to_list_rotation]
        by simp
      have ve: "fst ?run = Raised ValueError \<longleftrightarrow>
               (\<exists>i<100. (\<forall>j<i. good_image T (fs w1) ?ft names j)
                     \<and> (bad_image T (fs w1) ?ft names i
                         \<or> lum_at T (fs w1) ?ft names i = Inl ValueError))"
        unfolding run using bsds_build_raises_iff[OF n len, of ValueError path_to_bsds path_to_list_rotation]
        by auto
      from len stop saves re ve show ?thesis by simp
    qed
    from a b show "(\<forall>e. bsds_list_names T path_to_folder_rgbs w1 = Inl e \<longrightarrow> ?run = (Raised e, w1))
      \<and> (\<forall>list_names. bsds_list_names T path_to_folder_rgbs w1 = Inr list_names \<longrightarrow>
            (length list_names \<noteq> 100 \<longrightarrow> ?run = (Raised RuntimeError, w1))
          \<and> (length list_names = 100 \<longrightarrow>
               (\<forall>i<100. (\<forall>j<i. good_image T (fs w1) ?ft list_names j) \<longrightarrow>
                  (\<forall>e. lum_at T (fs w1) ?ft list_names i = Inl e \<longrightarrow>
                     ?run = (Raised e, w1\<lparr>io_log := io_log w1
                              @ map (\<lambda>k. ImageRead (path_join ?ft (list_names ! k))) [0..<Suc i]\<rparr>))
                \<and> (bad_image T (fs w1) ?ft list_names i \<longrightarrow>
                     ?run = (Raised ValueError, w1\<lparr>io_log := io_log w1
                              @ map (\<lambda>k. ImageRead (path_join ?ft (list_names ! k))) [0..<Suc i]\<rparr>)))
             \<and> ((\<forall>i<100. good_image T (fs w1) ?ft list_names i) \<longrightarrow>
                  fst ?run
                  = (if writable (fs w1) (npy_name path_to_bsds) \<and> writable (fs w1) path_to_list_rotation
                     then Returned else Raised OSError)))
          \<and> (fst ?run = Raised RuntimeError \<longleftrightarrow>
               length list_names \<noteq> 100
               \<or> (\<exists>i<100. (\<forall>j<i. good_image T (fs w1) ?ft list_names j)
                     \<and> lum_at T (fs w1) ?ft list_names i = Inl RuntimeError))
          \<and> (fst ?run = Raised ValueError \<longleftrightarrow>
               length list_names = 100
               \<and> (\<exists>i<100. (\<forall>j<i. good_image T (fs w1) ?ft list_names j)
                     \<and> (bad_image T (fs w1) ?ft list_names i
                         \<or> lum_at T (fs w1) ?ft list_names i = Inl ValueError))))"
      by blast
  qed
qed

lemma demo_luminance_good:
  "good_image (demo_tools [] []) f folder names i"
  by (simp add: good_image_def lum_at_def luminance_of_def demo_tools_def demo_read_def
        demo_image_def channel0_def landscape_def sideways_def height_bsds_def width_bsds_def)

lemma demo_fetch:
  "bsds_fetch (demo_tools missing small) url folder [] (demo_world existing names)
     = (Inr (), demo_world existing names)"
  by (simp add: bsds_fetch_def)

lemma demo_list_names:
  "bsds_list_names (demo_tools missing small) ''data'' (demo_world existing names) = Inr names"
  by (simp add: bsds_list_names_def listdir_def demo_tools_def demo_world_def
        path_to_folder_test_def path_join_def)

lemma demo_lum_at:
  "lum_at (demo_tools missing small) f folder names i
     = (case demo_read missing small (path_join folder (names ! i)) of
          Inl e \<Rightarrow> Inl e
        | Inr a \<Rightarrow> Inr \<lparr>nrows = dim0 a, ncols = dim1 a, at2 = (\<lambda>r c. at3 a r c 0)\<rparr>)"
  by (simp add: lum_at_def luminance_of_def demo_tools_def demo_read_def demo_image_def
        channel0_def)

lemma demo_path_7: "path_join ''data/BSDS300/images/test/'' (demo_names ! 7)
                      = ''data/BSDS300/images/test/07.jpg''"
  by (simp add: demo_names_def path_join_def)

lemma demo_path_8: "path_join ''data/BSDS300/images/test/'' (demo_names ! 8)
                      = ''data/BSDS300/images/test/08.jpg''"
  by (simp add: demo_names_def path_join_def)

lemma demo_path_0: "path_join ''data/BSDS300/images/test/'' (demo_names ! 0)
                      = ''data/BSDS300/images/test/00.jpg''"
  by (simp add: demo_names_def path_join_def)

lemma demo_path_1: "path_join ''data/BSDS300/images/test/'' (demo_names ! Suc 0)
                      = ''data/BSDS300/images/test/01.jpg''"
  by (simp add: demo_names_def path_join_def)

lemma demo_path_2: "path_join ''data/BSDS300/images/test/'' (demo_names ! 2)
                      = ''data/BSDS300/images/test/02.jpg''"
  by (simp add: demo_names_def path_join_def)

lemma demo_folder_test: "path_to_folder_test ''data'' = ''data/BSDS300/images/test/''"
  by (simp add: path_to_folder_test_def path_join_def)

lemma demo_reads_3:
  "map (\<lambda>k. ImageRead (path_join ''data/BSDS300/images/test/'' (demo_names ! k))) [0..<Suc 2]
     = [ImageRead ''data/BSDS300/images/test/00.jpg'', ImageRead ''data/BSDS300/images/test/01.jpg'',
        ImageRead ''data/BSDS300/images/test/02.jpg'']"
  by (simp add: upt_conv_Cons demo_names_def path_join_def)

theorem create_bsds_builds_test_set_witness:
  "\<not> (isfile (demo_world [] demo_names) ''bsds.npy'' \<and> isfile (demo_world [] demo_names) ''rot.pkl'')
   \<and> (\<exists>w' reference_uint8 list_rotation.
         create_bsds (demo_tools [] []) ''http://host/BSDS300.tgz'' ''data'' ''bsds.npy'' ''rot.pkl'' []
           (demo_world [] demo_names) = (Returned, w')
       \<and> files (fs w') ''bsds.npy'' = Some (Npy reference_uint8)
       \<and> files (fs w') ''rot.pkl'' = Some (Pickle list_rotation)
       \<and> length reference_uint8 = 100
       \<and> 7 \<in> set list_rotation \<and> 8 \<notin> set list_rotation
       \<and> nrows (reference_uint8 ! 7) = 320 \<and> ncols (reference_uint8 ! 7) = 480
       \<and> at2 (reference_uint8 ! 7) 0 0 = 96
       \<and> at2 (reference_uint8 ! 8) 0 0 = 33)
   \<and> create_bsds (demo_tools [] []) ''http://host/BSDS300.tgz'' ''data'' ''bsds.npy'' ''rot.pkl'' []
        (demo_world [] (take 99 demo_names)) = (Raised RuntimeError, demo_world [] (take 99 demo_names))
   \<and> create_bsds (demo_tools [''data/BSDS300/images/test/02.jpg''] [])
        ''http://host/BSDS300.tgz'' ''data'' ''bsds.npy'' ''rot.pkl'' [] (demo_world [] demo_names)
       = (Raised OSError,
          (demo_world [] demo_names)
            \<lparr>io_log := [ImageRead ''data/BSDS300/images/test/00.jpg'',
                        ImageRead ''data/BSDS300/images/test/01.jpg'',
                        ImageRead ''data/BSDS300/images/test/02.jpg'']\<rparr>)
   \<and> create_bsds (demo_tools [''data/BSDS300/images/test/02.jpg''] [''data/BSDS300/images/test/00.jpg''])
        ''http://host/BSDS300.tgz'' ''data'' ''bsds.npy'' ''rot.pkl'' [] (demo_world [] demo_names)
       = (Raised ValueError,
          (demo_world [] demo_names)\<lparr>io_log := [ImageRead ''data/BSDS300/images/test/00.jpg'']\<rparr>)
   \<and> fst (create_bsds (demo_tools [] [''data/BSDS300/images/test/02.jpg''])
             ''http://host/BSDS300.tgz'' ''data'' ''bsds.npy'' ''rot.pkl'' [] (demo_world [] demo_names))
       = Raised ValueError"
proof -
  let ?W = "demo_world [] demo_names"
  let ?T = "demo_tools [] []"
  let ?ft = "path_to_folder_test ''data''"
  let ?url = "''http://host/BSDS300.tgz''"
  let ?p0 = "''data/BSDS300/images/test/00.jpg''"
  let ?p2 = "''data/BSDS300/images/test/02.jpg''"
  have build: "\<not> (isfile (demo_world [] names) ''bsds.npy'' \<and> isfile (demo_world [] names) ''rot.pkl'')"
    for names by (simp add: isfile_def demo_world_def)
  have len: "length demo_names = 100" by (simp add: demo_names_def)
  have log0: "io_log ?W = []" by (simp add: demo_world_def)
  note main = create_bsds_builds_test_set[where path_to_bsds = "''bsds.npy''"
      and path_to_list_rotation = "''rot.pkl''" and source_url = ?url
      and path_to_folder_rgbs = "''data''" and path_to_tar = "[]"]
  \<comment> \<open>the run that returns\<close>
  have wr: "writable (fs ?W) (npy_name ''bsds.npy'') \<and> writable (fs ?W) ''rot.pkl''"
    by (simp add: demo_world_def)
  note built = main[where T = ?T and w = ?W, OF build, THEN conjunct2, THEN conjunct2, rule_format,
      OF demo_fetch, THEN conjunct2, rule_format, OF demo_list_names]
  from built len wr demo_luminance_good
  have "fst (create_bsds ?T ?url ''data'' ''bsds.npy'' ''rot.pkl'' [] ?W) = Returned"
    by simp
  then obtain w' where
    run: "create_bsds ?T ?url ''data'' ''bsds.npy'' ''rot.pkl'' [] ?W = (Returned, w')"
    by (cases "create_bsds ?T ?url ''data'' ''bsds.npy'' ''rot.pkl'' [] ?W") simp
  from main[where T = ?T and w = ?W, OF build, THEN conjunct1, rule_format, OF run]
  obtain w1 names ref rot where
    f: "bsds_fetch ?T ?url ''data'' [] ?W = (Inr (), w1)"
    and n: "bsds_list_names ?T ''data'' w1 = Inr names"
    and files: "files (fs w') = ((files (fs w1))(npy_name ''bsds.npy'' \<mapsto> Npy ref))(''rot.pkl'' \<mapsto> Pickle rot)"
    and lref: "length ref = 100"
    and rot: "rot = filter (rotated ?T (fs w1) ?ft names) [0..<100]"
    and each: "\<forall>i<100. \<exists>lum. lum_at ?T (fs w1) ?ft names i = Inr lum
            \<and> nrows (ref ! i) = 320 \<and> ncols (ref ! i) = 480
            \<and> (if i \<in> set rot
               then nrows lum = 481 \<and> ncols lum = 321
                  \<and> (\<forall>r<320. \<forall>c<480. at2 (ref ! i) r c = at2 lum (c + 1) (320 - r))
               else nrows lum = 321 \<and> ncols lum = 481
                  \<and> (\<forall>r<320. \<forall>c<480. at2 (ref ! i) r c = at2 lum (r + 1) (c + 1)))"
    by blast
  from f have w1: "w1 = ?W" by (simp add: demo_fetch)
  from n have names: "names = demo_names" by (simp add: w1 demo_list_names)
  have l7: "lum_at ?T (fs ?W) ?ft demo_names 7
              = Inr \<lparr>nrows = 481, ncols = 321, at2 = (\<lambda>r c. 31 + (of_nat r + of_nat c))\<rparr>"
    by (simp add: demo_lum_at demo_folder_test demo_path_7 demo_read_def demo_image_def)
  have l8: "lum_at ?T (fs ?W) ?ft demo_names 8
              = Inr \<lparr>nrows = 321, ncols = 481, at2 = (\<lambda>r c. 31 + (of_nat r + of_nat c))\<rparr>"
    by (simp add: demo_lum_at demo_folder_test demo_path_8 demo_read_def demo_image_def)
  have r7: "7 \<in> set rot" by (simp add: rot w1 names rotated_def l7 sideways_def height_bsds_def width_bsds_def)
  have r8: "8 \<notin> set rot" by (simp add: rot w1 names rotated_def l8 sideways_def height_bsds_def width_bsds_def)
  from each[rule_format, of 7] r7 l7 have s7: "nrows (ref ! 7) = 320" "ncols (ref ! 7) = 480"
    "at2 (ref ! 7) 0 0 = 96"
    by (auto simp: w1 names)
  from each[rule_format, of 8] r8 l8 have s8: "at2 (ref ! 8) 0 0 = 33"
    by (auto simp: w1 names)
  have f1: "files (fs w') ''bsds.npy'' = Some (Npy ref)" "files (fs w') ''rot.pkl'' = Some (Pickle rot)"
    by (simp_all add: files npy_name_def)
  \<comment> \<open>the listing of 99 names\<close>
  have "length (take 99 demo_names) \<noteq> 100" by simp
  with main[where T = ?T and w = "demo_world [] (take 99 demo_names)", OF build, THEN conjunct2,
      THEN conjunct2, rule_format, OF demo_fetch, THEN conjunct2, rule_format, OF demo_list_names]
  have re: "create_bsds ?T ?url ''data'' ''bsds.npy'' ''rot.pkl'' [] (demo_world [] (take 99 demo_names))
        = (Raised RuntimeError, demo_world [] (take 99 demo_names))" by blast
  \<comment> \<open>the third image cannot be read\<close>
  let ?Tm = "demo_tools [?p2] []"
  have g01: "\<forall>j<2. good_image ?Tm (fs ?W) ?ft demo_names j"
    by (auto simp: less_2_cases_iff good_image_def demo_lum_at demo_folder_test demo_path_0
          demo_path_1 demo_read_def demo_image_def landscape_def height_bsds_def width_bsds_def)
  have m2: "lum_at ?Tm (fs ?W) ?ft demo_names 2 = Inl OSError"
    by (simp add: demo_lum_at demo_folder_test demo_path_2 demo_read_def)
  note builtm = main[where T = ?Tm and w = ?W, OF build, THEN conjunct2, THEN conjunct2, rule_format,
      OF demo_fetch, THEN conjunct2, rule_format, OF demo_list_names, THEN conjunct2, THEN conjunct1,
      rule_format, OF len, THEN conjunct1, rule_format, of 2, THEN conjunct1, rule_format, OF _ g01[rule_format] m2]
  have os: "create_bsds ?Tm ?url ''data'' ''bsds.npy'' ''rot.pkl'' [] ?W
       = (Raised OSError, ?W\<lparr>io_log := [ImageRead ?p0, ImageRead ''data/BSDS300/images/test/01.jpg'',
                                         ImageRead ?p2]\<rparr>)"
    using builtm by (simp only: demo_folder_test demo_reads_3 log0 append_Nil)
  \<comment> \<open>the first image is of neither shape, the third cannot be read\<close>
  let ?Tb = "demo_tools [?p2] [?p0]"
  have b0: "bad_image ?Tb (fs ?W) ?ft demo_names 0"
    by (simp add: bad_image_def demo_lum_at demo_folder_test demo_path_0 demo_read_def demo_image_def
          landscape_def sideways_def height_bsds_def width_bsds_def)
  note builtb = main[where T = ?Tb and w = ?W, OF build, THEN conjunct2, THEN conjunct2, rule_format,
      OF demo_fetch, THEN conjunct2, rule_format, OF demo_list_names, THEN conjunct2, THEN conjunct1,
      rule_format, OF len, THEN conjunct1, rule_format, of 0, THEN conjunct2, rule_format, OF _ _ b0]
  have ve0: "create_bsds ?Tb ?url ''data'' ''bsds.npy'' ''rot.pkl'' [] ?W
       = (Raised ValueError, ?W\<lparr>io_log := [ImageRead ?p0]\<rparr>)"
    using builtb by (simp add: demo_folder_test demo_path_0 log0)
  \<comment> \<open>the third image is of neither shape\<close>
  let ?T2 = "demo_tools [] [?p2]"
  have g01': "\<forall>j<2. good_image ?T2 (fs ?W) ?ft demo_names j"
    by (auto simp: less_2_cases_iff good_image_def demo_lum_at demo_folder_test demo_path_0
          demo_path_1 demo_read_def demo_image_def landscape_def height_bsds_def width_bsds_def)
  have b2: "bad_image ?T2 (fs ?W) ?ft demo_names 2"
    by (simp add: bad_image_def demo_lum_at demo_folder_test demo_path_2 demo_read_def demo_image_def
          landscape_def sideways_def height_bsds_def width_bsds_def)
  from g01' b2 have ex: "\<exists>i<100. (\<forall>j<i. good_image ?T2 (fs ?W) ?ft demo_names j)
                     \<and> (bad_image ?T2 (fs ?W) ?ft demo_names i
                         \<or> lum_at ?T2 (fs ?W) ?ft demo_names i = Inl ValueError)"
    by (intro exI[of _ 2]) simp
  from main[where T = ?T2 and w = ?W, OF build, THEN conjunct2, THEN conjunct2, rule_format,
      OF demo_fetch, THEN conjunct2, rule_format, OF demo_list_names] len ex
  have ve: "fst (create_bsds ?T2 ?url ''data'' ''bsds.npy'' ''rot.pkl'' [] ?W) = Raised ValueError"
    by blast
  from build run f1 lref r7 r8 s7 s8 re os ve0 ve show ?thesis by blast
qed

text \<open>
  The claim as worded, that \<^verbatim>\<open>ValueError\<close> is raised exactly when some image is of
  neither shape, fails in two ways. With a listing of one name whose image is 10 by 10,
  the run raises \<^verbatim>\<open>RuntimeError\<close> at the count and reads no image. With a listing of
  100 names where the first image cannot be read and the third is 10 by 10, the run
  raises what the read raised, here \<^verbatim>\<open>OSError\<close>.
\<close>

theorem create_bsds_errors_counterexample:
  "bsds_list_names (demo_tools [] [''data/BSDS300/images/test/00.jpg'']) ''data''
      (demo_world [] [''00.jpg'']) = Inr [''00.jpg'']
   \<and> shape_of (lum_at (demo_tools [] [''data/BSDS300/images/test/00.jpg''])
                 (fs (demo_world [] [''00.jpg''])) ''data/BSDS300/images/test/'' [''00.jpg''] 0)
       = Some (10, 10)
   \<and> \<not> (isfile (demo_world [] [''00.jpg'']) ''bsds.npy'' \<and> isfile (demo_world [] [''00.jpg'']) ''rot.pkl'')
   \<and> create_bsds (demo_tools [] [''data/BSDS300/images/test/00.jpg'']) ''http://host/BSDS300.tgz''
        ''data'' ''bsds.npy'' ''rot.pkl'' [] (demo_world [] [''00.jpg''])
       = (Raised RuntimeError, demo_world [] [''00.jpg''])
   \<and> bsds_list_names
        (demo_tools [''data/BSDS300/images/test/00.jpg''] [''data/BSDS300/images/test/02.jpg''])
        ''data'' (demo_world [] demo_names) = Inr demo_names
   \<and> length demo_names = 100
   \<and> lum_at (demo_tools [''data/BSDS300/images/test/00.jpg''] [''data/BSDS300/images/test/02.jpg''])
        (fs (demo_world [] demo_names)) ''data/BSDS300/images/test/'' demo_names 0 = Inl OSError
   \<and> shape_of
        (lum_at (demo_tools [''data/BSDS300/images/test/00.jpg''] [''data/BSDS300/images/test/02.jpg''])
           (fs (demo_world [] demo_names)) ''data/BSDS300/images/test/'' demo_names 2)
       = Some (10, 10)
   \<and> \<not> (isfile (demo_world [] demo_names) ''bsds.npy'' \<and> isfile (demo_world [] demo_names) ''rot.pkl'')
   \<and> fst (create_bsds
             (demo_tools [''data/BSDS300/images/test/00.jpg''] [''data/BSDS300/images/test/02.jpg''])
             ''http://host/BSDS300.tgz'' ''data'' ''bsds.npy'' ''rot.pkl'' [] (demo_world [] demo_names))
       = Raised OSError"
proof -
  let ?p0 = "''data/BSDS300/images/test/00.jpg''"
  let ?p1 = "''data/BSDS300/images/test/02.jpg''"
  let ?url = "''http://host/BSDS300.tgz''"
  have build: "\<not> (isfile (demo_world [] names) ''bsds.npy'' \<and> isfile (demo_world [] names) ''rot.pkl'')"
    for names by (simp add: isfile_def demo_world_def)
  have len: "length demo_names = 100" by (simp add: demo_names_def)
  have a: "shape_of (lum_at (demo_tools [] [?p0]) (fs (demo_world [] [''00.jpg'']))
                      ''data/BSDS300/images/test/'' [''00.jpg''] 0) = Some (10, 10)"
    by (simp add: shape_of_def demo_lum_at path_join_def demo_read_def demo_image_def)
  have b: "create_bsds (demo_tools [] [?p0]) ?url ''data'' ''bsds.npy'' ''rot.pkl'' []
             (demo_world [] [''00.jpg'']) = (Raised RuntimeError, demo_world [] [''00.jpg''])"
    by (simp add: create_bsds_build[OF build] demo_fetch bsds_build_def demo_list_names)
  have c: "lum_at (demo_tools [?p0] [?p1]) (fs (demo_world [] demo_names))
             ''data/BSDS300/images/test/'' demo_names 0 = Inl OSError"
    by (simp add: demo_lum_at demo_path_0 demo_read_def)
  have d: "shape_of (lum_at (demo_tools [?p0] [?p1]) (fs (demo_world [] demo_names))
             ''data/BSDS300/images/test/'' demo_names 2) = Some (10, 10)"
    by (simp add: shape_of_def demo_lum_at demo_path_2 demo_read_def demo_image_def)
  have u: "[0..<100] = 0 # [1..<100]" by (simp add: upt_conv_Cons)
  have e: "fst (create_bsds (demo_tools [?p0] [?p1]) ?url ''data'' ''bsds.npy'' ''rot.pkl'' []
                  (demo_world [] demo_names)) = Raised OSError"
    using c
    by (simp add: create_bsds_build[OF build] demo_fetch bsds_build_unfold[OF demo_list_names len]
          u bsds_image_unfold demo_folder_test lum_at_def)
  from a b c d e build len demo_list_names show ?thesis by blast
qed

section \<open>The ImageNet sets\<close>

lemma read_crop_crop_at:
  "read_crop T wc b p w =
     (fst (crop_at T (fs w) wc b p (rng w)),
      w\<lparr>rng := snd (crop_at T (fs w) wc b p (rng w)), io_log := io_log w @ [ImageRead p]\<rparr>)"
  by (auto simp: read_crop_def crop_at_def Let_def split: sum.splits prod.splits)

lemma crops_fit_Cons:
  "crops_fit T f folder wc (name # rest) \<Longrightarrow> crops_fit T f folder wc rest"
  by (simp add: crops_fit_def)

lemma crops_fit_hd:
  assumes "crops_fit T f folder wc (name # rest)"
    and "crop_at T f wc b (path_join folder name) g = (Inr c, g')"
  shows "nrows c = nat wc \<and> ncols c = nat wc"
proof -
  from assms(2) have "fst (crop_at T f wc b (path_join folder name) g) = Inr c" by simp
  moreover have "name \<in> set (name # rest)" by simp
  ultimately show ?thesis using assms(1) unfolding crops_fit_def by blast
qed

lemma py_slice_training:
  assumes "0 \<le> nbt" and "0 \<le> nbv" and "N = nat (nbt + nbv)" and "N \<le> length crops"
  shows "py_slice (take N crops) 0 nbt = take (nat nbt) crops"
    and "py_slice (take N crops) nbt (nbt + nbv) = take (nat nbv) (drop (nat nbt) crops)"
proof -
  from assms have N: "N = nat nbt + nat nbv" by (simp add: nat_add_distrib)
  from assms(4) have len: "length (take N crops) = N" by simp
  from assms(1) N have b1: "py_bound N 0 = 0" "py_bound N nbt = nat nbt"
    by (simp_all add: py_bound_def)
  from assms(1,2,3) have b2: "py_bound N (nbt + nbv) = N"
    by (simp add: py_bound_def)
  have s1: "py_slice (take N crops) 0 nbt
              = take (py_bound N nbt - py_bound N 0) (drop (py_bound N 0) (take N crops))"
    by (simp only: py_slice_def Let_def len)
  have s2: "py_slice (take N crops) nbt (nbt + nbv)
              = take (py_bound N (nbt + nbv) - py_bound N nbt) (drop (py_bound N nbt) (take N crops))"
    by (simp only: py_slice_def Let_def len)
  show "py_slice (take N crops) 0 nbt = take (nat nbt) crops"
    unfolding s1 b1 using N by (simp add: min_absorb1)
  show "py_slice (take N crops) nbt (nbt + nbv) = take (nat nbv) (drop (nat nbt) crops)"
    unfolding s2 b1 b2 using N by (simp add: drop_take)
qed

lemma create_imagenet_build:
  assumes "\<not> (isfile w pt \<and> isfile w pv)"
  shows "create_imagenet T folder wc nbt nbv pt pv tar w =
     (case imagenet_fetch T folder tar w of
        (Inl e, w1) \<Rightarrow> (Raised e, w1)
      | (Inr u, w1) \<Rightarrow> imagenet_build T folder wc nbt nbv pt pv w1)"
  by (simp only: create_imagenet_def assms if_False)

lemma two_writes:
  "(case write_file p1 c1 w2 of
      (Inl e, w3) \<Rightarrow> (Raised e, w3)
    | (Inr u, w3) \<Rightarrow>
        (case write_file p2 c2 w3 of
           (Inl e, w4) \<Rightarrow> (Raised e, w4)
         | (Inr u', w4) \<Rightarrow> (Returned, w4)))
   = (if writable (fs w2) p1 \<and> writable (fs w2) p2
      then (Returned, w2\<lparr>fs := (fs w2)\<lparr>files := ((files (fs w2))(p1 \<mapsto> c1))(p2 \<mapsto> c2)\<rparr>,
                         io_log := io_log w2 @ [Saved p1 c1, Saved p2 c2]\<rparr>)
      else if writable (fs w2) p1
      then (Raised OSError, w2\<lparr>fs := (fs w2)\<lparr>files := (files (fs w2))(p1 \<mapsto> c1)\<rparr>,
                               io_log := io_log w2 @ [Saved p1 c1]\<rparr>)
      else (Raised OSError, w2))"
  by (simp add: write_file_def)

lemma crops_before_simps:
  "crops_before [] = []"
  "crops_before (Inr c # rs) = c # crops_before rs"
  "e = TypeError \<or> e = ValueError \<Longrightarrow> crops_before (Inl e # rs) = crops_before rs"
  "e \<noteq> TypeError \<Longrightarrow> e \<noteq> ValueError \<Longrightarrow> crops_before (Inl e # rs) = []"
  by (auto simp: crops_before_def crops_of_def goes_on_def)

lemma first_uncaught_simps:
  "first_uncaught [] = None"
  "first_uncaught (Inr c # rs) = first_uncaught rs"
  "e = TypeError \<or> e = ValueError \<Longrightarrow> first_uncaught (Inl e # rs) = first_uncaught rs"
  "e \<noteq> TypeError \<Longrightarrow> e \<noteq> ValueError \<Longrightarrow> first_uncaught (Inl e # rs) = Some e"
  by (auto simp: first_uncaught_def goes_on_def)

lemma attempts_Cons:
  "crop_at T f wc (int i < nbt) (path_join folder name) g = (Inl e, g') \<Longrightarrow>
     attempts T f folder wc nbt (name # rest) i g = Inl e # attempts T f folder wc nbt rest i g'"
  "crop_at T f wc (int i < nbt) (path_join folder name) g = (Inr c, g') \<Longrightarrow>
     attempts T f folder wc nbt (name # rest) i g = Inr c # attempts T f folder wc nbt rest (i + 1) g'"
  by simp_all

lemma imagenet_loop_run:
  assumes "length lum = N" and "int N = nb_total" and "i < N"
    and "\<forall>a\<in>set lum. nrows a = nat wc \<and> ncols a = nat wc"
    and "crops_fit T (fs w) folder wc names"
  shows "\<exists>w' reads.
      imagenet_loop T folder wc nbt nb_total names (i, lum) w
        = (loop_result N i lum (crops_before (attempts T (fs w) folder wc nbt names i (rng w)))
             (first_uncaught (attempts T (fs w) folder wc nbt names i (rng w))), w')
      \<and> fs w' = fs w \<and> io_log w' = io_log w @ map ImageRead reads"
  using assms
proof (induction names arbitrary: i lum w)
  case Nil
  have "io_log w = io_log w @ map ImageRead []" by simp
  with Nil show ?case by (simp add: loop_result_def crops_before_simps first_uncaught_simps)
next
  case (Cons name rest)
  let ?p = "path_join folder name"
  let ?b = "int i < nbt"
  obtain r g' where ca: "crop_at T (fs w) wc ?b ?p (rng w) = (r, g')"
    by (cases "crop_at T (fs w) wc ?b ?p (rng w)")
  let ?w1 = "w\<lparr>rng := g', io_log := io_log w @ [ImageRead ?p]\<rparr>"
  have rc: "read_crop T wc ?b ?p w = (r, ?w1)" by (simp add: read_crop_crop_at ca)
  note cf = crops_fit_Cons[OF Cons.prems(5)]
  have fs1: "fs ?w1 = fs w" and rng1: "rng ?w1 = g'"
    and log1: "io_log ?w1 = io_log w @ [ImageRead ?p]" by simp_all
  show ?case
  proof (cases r)
    case (Inl e)
    note at = attempts_Cons(1)[OF ca[unfolded Inl], of rest]
    show ?thesis
    proof (cases "e = TypeError \<or> e = ValueError")
      case caught: True
      let ?w2 = "print_line (CHR 0x22 # ?p @ CHR 0x22 # '' is skipped.'' @ [CHR 0x0A]) (print_err e ?w1)"
      have fs2: "fs ?w2 = fs w" and rng2: "rng ?w2 = g'"
        and log2: "io_log ?w2 = io_log w @ [ImageRead ?p]"
        by (simp_all add: print_line_def print_err_def)
      define rs where "rs = attempts T (fs w) folder wc nbt rest i g'"
      from Cons.IH[of lum i ?w2, unfolded fs2 rng2 log2, OF Cons.prems(1,2,3,4) cf]
      obtain w' reads where
        l: "imagenet_loop T folder wc nbt nb_total rest (i, lum) ?w2
          = (loop_result N i lum (crops_before rs) (first_uncaught rs), w')"
        and f: "fs w' = fs w" and lg: "io_log w' = (io_log w @ [ImageRead ?p]) @ map ImageRead reads"
        unfolding rs_def by blast
      have lg': "io_log w' = io_log w @ map ImageRead (?p # reads)" using lg by simp
      have cb: "crops_before (attempts T (fs w) folder wc nbt (name # rest) i (rng w)) = crops_before rs"
        and fu: "first_uncaught (attempts T (fs w) folder wc nbt (name # rest) i (rng w))
                   = first_uncaught rs"
        unfolding at rs_def[symmetric] using caught
        by (simp_all add: crops_before_simps first_uncaught_simps)
      from caught have
        "imagenet_loop T folder wc nbt nb_total (name # rest) (i, lum) w
           = imagenet_loop T folder wc nbt nb_total rest (i, lum) ?w2"
        by (auto simp: rc Inl Let_def)
      with l f lg' show ?thesis unfolding cb fu by (simp only:) blast
    next
      case uncaught: False
      have cb: "crops_before (attempts T (fs w) folder wc nbt (name # rest) i (rng w)) = []"
        and fu: "first_uncaught (attempts T (fs w) folder wc nbt (name # rest) i (rng w)) = Some e"
        unfolding at using uncaught by (simp_all add: crops_before_simps first_uncaught_simps)
      from uncaught have
        run: "imagenet_loop T folder wc nbt nb_total (name # rest) (i, lum) w = (Inl e, ?w1)"
        by (simp add: rc Inl Let_def)
      have res: "loop_result N i lum [] (Some e) = Inl e"
        using Cons.prems(3) by (simp add: loop_result_def)
      have "io_log ?w1 = io_log w @ map ImageRead [?p]" by simp
      with run res fs1 show ?thesis unfolding cb fu by (simp only:) blast
    qed
  next
    case (Inr c)
    note at = attempts_Cons(2)[OF ca[unfolded Inr], of rest]
    define rs where "rs = attempts T (fs w) folder wc nbt rest (i + 1) g'"
    have cb: "crops_before (attempts T (fs w) folder wc nbt (name # rest) i (rng w))
                = c # crops_before rs"
      and fu: "first_uncaught (attempts T (fs w) folder wc nbt (name # rest) i (rng w))
                 = first_uncaught rs"
      unfolding at rs_def[symmetric] by (simp_all add: crops_before_simps first_uncaught_simps)
    from crops_fit_hd[OF Cons.prems(5) ca[unfolded Inr]]
    have shape: "nrows c = nat wc" "ncols c = nat wc" by simp_all
    from Cons.prems(1,3) have il: "i < length lum" by simp
    with Cons.prems(4) have slot: "nrows (lum ! i) = nat wc" "ncols (lum ! i) = nat wc" by simp_all
    from il slot shape have ss: "set_slice lum i c = Inr (lum[i := c])"
      by (simp add: set_slice_def broadcastable_def broadcast_to_same)
    show ?thesis
    proof (cases "int (i + 1) = nb_total")
      case True
      with Cons.prems(2) have N: "N = i + 1" by simp
      from True have
        run: "imagenet_loop T folder wc nbt nb_total (name # rest) (i, lum) w
                = (Inr (i + 1, lum[i := c]), ?w1)"
        by (simp add: rc Inr ss Let_def)
      have "lum[i := c] = take i lum @ [c]"
        using il Cons.prems(1) N by (simp add: upd_conv_take_nth_drop)
      then have res: "loop_result N i lum (c # crops_before rs) (first_uncaught rs)
                        = Inr (i + 1, lum[i := c])"
        using N by (simp add: loop_result_def)
      have "io_log ?w1 = io_log w @ map ImageRead [?p]" by simp
      with run res fs1 show ?thesis unfolding cb fu by (simp only:) blast
    next
      case False
      with Cons.prems(2,3) have lt: "i + 1 < N" by linarith
      from False have
        run: "imagenet_loop T folder wc nbt nb_total (name # rest) (i, lum) w
                = imagenet_loop T folder wc nbt nb_total rest (i + 1, lum[i := c]) ?w1"
        by (simp add: rc Inr ss Let_def)
      have len': "length (lum[i := c]) = N" using Cons.prems(1) by simp
      have slots': "\<forall>a\<in>set (lum[i := c]). nrows a = nat wc \<and> ncols a = nat wc"
        using Cons.prems(4) shape set_update_subset_insert[of lum i c] by auto
      from Cons.IH[of "lum[i := c]" "i + 1" ?w1, unfolded fs1 rng1 log1,
          OF len' Cons.prems(2) lt slots' cf]
      obtain w' reads where
        l: "imagenet_loop T folder wc nbt nb_total rest (i + 1, lum[i := c]) ?w1
          = (loop_result N (i + 1) (lum[i := c]) (crops_before rs) (first_uncaught rs), w')"
        and f: "fs w' = fs w" and lg: "io_log w' = (io_log w @ [ImageRead ?p]) @ map ImageRead reads"
        unfolding rs_def by blast
      have t: "take (i + 1) (lum[i := c]) = take i lum @ [c]"
        using il by (simp add: take_Suc_conv_app_nth)
      have d: "drop (i + 1 + k) (lum[i := c]) = drop (i + 1 + k) lum" for k
        by (simp add: drop_update_cancel)
      have tk: "take (N - i) (c # crops_before rs) = c # take (N - (i + 1)) (crops_before rs)"
        using lt by (simp add: take_Cons')
      have eq: "loop_result N (i + 1) (lum[i := c]) (crops_before rs) (first_uncaught rs)
                 = loop_result N i lum (c # crops_before rs) (first_uncaught rs)"
        unfolding loop_result_def t d tk by (simp split: option.splits)
      have lg': "io_log w' = io_log w @ map ImageRead (?p # reads)" using lg by simp
      from run l eq f lg' show ?thesis unfolding cb fu by (simp only:) blast
    qed
  qed
qed

lemma imagenet_loop_empty:
  assumes "length lum \<le> i"
  shows "\<exists>w' reads.
      imagenet_loop T folder wc nbt nb_total names (i, lum) w
        = (if crops_before (attempts T (fs w) folder wc nbt names i (rng w)) \<noteq> []
           then Inl IndexError
           else case first_uncaught (attempts T (fs w) folder wc nbt names i (rng w)) of
                  Some e \<Rightarrow> Inl e
                | None \<Rightarrow> Inr (i, lum), w')
      \<and> fs w' = fs w \<and> io_log w' = io_log w @ map ImageRead reads"
  using assms
proof (induction names arbitrary: w)
  case Nil
  show ?case by (simp add: crops_before_simps first_uncaught_simps)
next
  case (Cons name rest)
  let ?p = "path_join folder name"
  let ?b = "int i < nbt"
  obtain r g' where ca: "crop_at T (fs w) wc ?b ?p (rng w) = (r, g')"
    by (cases "crop_at T (fs w) wc ?b ?p (rng w)")
  let ?w1 = "w\<lparr>rng := g', io_log := io_log w @ [ImageRead ?p]\<rparr>"
  have rc: "read_crop T wc ?b ?p w = (r, ?w1)" by (simp add: read_crop_crop_at ca)
  have log1: "io_log ?w1 = io_log w @ map ImageRead [?p]" by simp
  have fs1: "fs ?w1 = fs w" by simp
  show ?case
  proof (cases r)
    case (Inl e)
    note at = attempts_Cons(1)[OF ca[unfolded Inl], of rest]
    show ?thesis
    proof (cases "e = TypeError \<or> e = ValueError")
      case caught: True
      let ?w2 = "print_line (CHR 0x22 # ?p @ CHR 0x22 # '' is skipped.'' @ [CHR 0x0A]) (print_err e ?w1)"
      have fs2: "fs ?w2 = fs w" and rng2: "rng ?w2 = g'"
        and log2: "io_log ?w2 = io_log w @ [ImageRead ?p]"
        by (simp_all add: print_line_def print_err_def)
      define rs where "rs = attempts T (fs w) folder wc nbt rest i g'"
      from Cons.IH[of ?w2, unfolded fs2 rng2 log2, OF Cons.prems(1)]
      obtain w' reads where
        l: "imagenet_loop T folder wc nbt nb_total rest (i, lum) ?w2
          = (if crops_before rs \<noteq> [] then Inl IndexError
             else case first_uncaught rs of Some e \<Rightarrow> Inl e | None \<Rightarrow> Inr (i, lum), w')"
        and f: "fs w' = fs w" and lg: "io_log w' = (io_log w @ [ImageRead ?p]) @ map ImageRead reads"
        unfolding rs_def by blast
      have lg': "io_log w' = io_log w @ map ImageRead (?p # reads)" using lg by simp
      have cb: "crops_before (attempts T (fs w) folder wc nbt (name # rest) i (rng w)) = crops_before rs"
        and fu: "first_uncaught (attempts T (fs w) folder wc nbt (name # rest) i (rng w))
                   = first_uncaught rs"
        unfolding at rs_def[symmetric] using caught
        by (simp_all add: crops_before_simps first_uncaught_simps)
      from caught have
        "imagenet_loop T folder wc nbt nb_total (name # rest) (i, lum) w
           = imagenet_loop T folder wc nbt nb_total rest (i, lum) ?w2"
        by (auto simp: rc Inl Let_def)
      with l f lg' show ?thesis unfolding cb fu by (simp only:) blast
    next
      case uncaught: False
      have cb: "crops_before (attempts T (fs w) folder wc nbt (name # rest) i (rng w)) = []"
        and fu: "first_uncaught (attempts T (fs w) folder wc nbt (name # rest) i (rng w)) = Some e"
        unfolding at using uncaught by (simp_all add: crops_before_simps first_uncaught_simps)
      from uncaught have
        run: "imagenet_loop T folder wc nbt nb_total (name # rest) (i, lum) w = (Inl e, ?w1)"
        by (simp add: rc Inl Let_def)
      with log1 fs1 show ?thesis unfolding cb fu by (simp only: simp_thms if_False option.case) blast
    qed
  next
    case (Inr c)
    note at = attempts_Cons(2)[OF ca[unfolded Inr], of rest]
    from Cons.prems(1) have ss: "set_slice lum i c = Inl IndexError"
      by (simp add: set_slice_def)
    have cb: "crops_before (attempts T (fs w) folder wc nbt (name # rest) i (rng w)) \<noteq> []"
      unfolding at by (simp add: crops_before_simps)
    have "imagenet_loop T folder wc nbt nb_total (name # rest) (i, lum) w = (Inl IndexError, ?w1)"
      by (simp add: rc Inr ss Let_def)
    then show ?thesis unfolding if_P[OF cb] using fs1 log1 by blast
  qed
qed

lemma numpy_zeros_Inr:
  "numpy_zeros env n h w = Inr z \<Longrightarrow> 0 \<le> n \<and> 0 \<le> h \<and> 0 \<le> w \<and> z = zeros (nat n) (nat h) (nat w)"
  by (simp add: numpy_zeros_def split: if_splits)

lemma imagenet_build_unfold:
  assumes "numpy_zeros w1 (nbt + nbv) wc wc = Inr z"
    and "imagenet_list_names T folder w1 = Inr names"
  shows "imagenet_build T folder wc nbt nbv pt pv w1 =
     (case imagenet_loop T folder wc nbt (nbt + nbv) names (0, z) w1 of
        (Inl e, w2) \<Rightarrow> (Raised e, w2)
      | (Inr (i, lum), w2) \<Rightarrow>
          if int i \<noteq> nbt + nbv then (Raised RuntimeError, w2)
          else
            (case write_file (npy_name pt) (Npy (py_slice lum 0 nbt)) w2 of
               (Inl e, w3) \<Rightarrow> (Raised e, w3)
             | (Inr u, w3) \<Rightarrow>
                 (case write_file (npy_name pv) (Npy (py_slice lum nbt (nbt + nbv))) w3 of
                    (Inl e, w4) \<Rightarrow> (Raised e, w4)
                  | (Inr u', w4) \<Rightarrow> (Returned, w4))))"
  using assms
  by (simp add: imagenet_build_def Let_def numpy_save_def split: prod.splits sum.splits)

text \<open>
  What a run does after the archive step, once the array is allocated and the listing
  is at hand: \<open>w2\<close> is the world when the loop is left.
\<close>

lemma imagenet_build_cases:
  assumes zeros: "numpy_zeros w1 (nbt + nbv) wc wc = Inr z"
    and names: "imagenet_list_names T folder w1 = Inr names"
    and fit: "crops_fit T (fs w1) folder wc names"
    and N: "N = nat (nbt + nbv)"
    and cs: "cs = collected T (fs w1) folder wc nbt names (rng w1)"
    and stop: "stop = stopped_by T (fs w1) folder wc nbt names (rng w1)"
  shows "\<exists>w2 reads. fs w2 = fs w1 \<and> io_log w2 = io_log w1 @ map ImageRead reads
     \<and> imagenet_build T folder wc nbt nbv pt pv w1 =
         (if N = 0 \<and> cs \<noteq> [] then (Raised IndexError, w2)
          else if length cs < N \<and> stop = None then (Raised RuntimeError, w2)
          else if (length cs < N \<or> N = 0) \<and> stop \<noteq> None then (Raised (the stop), w2)
          else
            (case write_file (npy_name pt) (Npy (py_slice (take N cs) 0 nbt)) w2 of
               (Inl e, w3) \<Rightarrow> (Raised e, w3)
             | (Inr u, w3) \<Rightarrow>
                 (case write_file (npy_name pv) (Npy (py_slice (take N cs) nbt (nbt + nbv))) w3 of
                    (Inl e, w4) \<Rightarrow> (Raised e, w4)
                  | (Inr u', w4) \<Rightarrow> (Returned, w4))))"
    (is "\<exists>w2 reads. ?P w2 reads")
proof -
  note u = imagenet_build_unfold[OF zeros names, of pt pv]
  from numpy_zeros_Inr[OF zeros] have sizes: "0 \<le> nbt + nbv" "0 \<le> wc"
    and z: "z = zeros (nat (nbt + nbv)) (nat wc) (nat wc)" by simp_all
  have lz: "length z = N" by (simp add: z zeros_def N)
  from sizes(1) N have iN: "int N = nbt + nbv" by simp
  define rs where "rs = attempts T (fs w1) folder wc nbt names 0 (rng w1)"
  have cs': "cs = crops_before rs" and stop': "stop = first_uncaught rs"
    by (simp_all add: cs stop collected_def stopped_by_def rs_def)
  let ?save = "\<lambda>w2. (case write_file (npy_name pt) (Npy (py_slice (take N cs) 0 nbt)) w2 of
               (Inl e, w3) \<Rightarrow> (Raised e, w3)
             | (Inr u, w3) \<Rightarrow>
                 (case write_file (npy_name pv) (Npy (py_slice (take N cs) nbt (nbt + nbv))) w3 of
                    (Inl e, w4) \<Rightarrow> (Raised e, w4)
                  | (Inr u', w4) \<Rightarrow> (Returned, w4)))"
  show ?thesis
  proof (cases "N = 0")
    case True
    with lz have "length z \<le> 0" by simp
    from imagenet_loop_empty[OF this, of T folder wc nbt "nbt + nbv" names w1] obtain w2 reads where
      l: "imagenet_loop T folder wc nbt (nbt + nbv) names (0, z) w1
            = (if cs \<noteq> [] then Inl IndexError
               else case stop of Some e \<Rightarrow> Inl e | None \<Rightarrow> Inr (0, z), w2)"
      and f: "fs w2 = fs w1" and lg: "io_log w2 = io_log w1 @ map ImageRead reads"
      unfolding cs' stop' rs_def by blast
    from True lz have z0: "z = []" by simp
    from True iN have tot: "nbt + nbv = 0" by simp
    have "?P w2 reads"
    proof (cases "cs = []")
      case c: False
      then have "imagenet_build T folder wc nbt nbv pt pv w1 = (Raised IndexError, w2)"
        by (simp only: u l) simp
      with c True f lg show ?thesis by simp
    next
      case c: True
      show ?thesis
      proof (cases stop)
        case (Some e)
        with c have "imagenet_build T folder wc nbt nbv pt pv w1 = (Raised e, w2)"
          by (simp only: u l) simp
        with c Some True f lg show ?thesis by simp
      next
        case None
        with l c z0 have l': "imagenet_loop T folder wc nbt (nbt + nbv) names (0, z) w1
                                = (Inr (0, take N cs), w2)" by simp
        have "imagenet_build T folder wc nbt nbv pt pv w1 = ?save w2"
          by (simp only: u l') (simp add: tot)
        with c None True f lg show ?thesis by simp
      qed
    qed
    then show ?thesis by blast
  next
    case False
    then have pos: "0 < N" by simp
    have slots: "\<forall>a\<in>set z. nrows a = nat wc \<and> ncols a = nat wc"
      by (simp add: z zeros_def zeros2_def)
    from imagenet_loop_run[OF lz iN pos slots fit, of nbt] obtain w2 reads where
      l: "imagenet_loop T folder wc nbt (nbt + nbv) names (0, z) w1
            = (loop_result N 0 z cs stop, w2)"
      and f: "fs w2 = fs w1" and lg: "io_log w2 = io_log w1 @ map ImageRead reads"
      unfolding cs' stop' rs_def by blast
    have "?P w2 reads"
    proof (cases "length cs < N")
      case True
      show ?thesis
      proof (cases stop)
        case None
        with True have "loop_result N 0 z cs stop = Inr (length cs, cs @ drop (length cs) z)"
          by (simp add: loop_result_def)
        moreover from True iN have "int (length cs) \<noteq> nbt + nbv" by simp
        ultimately have "imagenet_build T folder wc nbt nbv pt pv w1 = (Raised RuntimeError, w2)"
          by (simp only: u l) simp
        with True None False f lg show ?thesis by simp
      next
        case (Some e)
        with True have "loop_result N 0 z cs stop = Inl e"
          by (simp add: loop_result_def)
        then have "imagenet_build T folder wc nbt nbv pt pv w1 = (Raised e, w2)"
          by (simp only: u l) simp
        with True Some False f lg show ?thesis by simp
      qed
    next
      case ge: False
      then have "loop_result N 0 z cs stop = Inr (N, take N cs)"
        by (simp add: loop_result_def)
      then have "imagenet_build T folder wc nbt nbv pt pv w1 = ?save w2"
        using iN by (simp only: u l) simp
      with ge False f lg show ?thesis by simp
    qed
    then show ?thesis by blast
  qed
qed

lemma create_imagenet_outcome:
  assumes build: "\<not> (isfile w pt \<and> isfile w pv)"
    and fetch: "imagenet_fetch T folder tar w = (Inr (), w1)"
    and zeros: "numpy_zeros w1 (nbt + nbv) wc wc = Inr z"
    and names: "imagenet_list_names T folder w1 = Inr names"
    and fit: "crops_fit T (fs w1) folder wc names"
    and N: "N = nat (nbt + nbv)"
    and cs: "cs = collected T (fs w1) folder wc nbt names (rng w1)"
    and stop: "stop = stopped_by T (fs w1) folder wc nbt names (rng w1)"
    and tr: "tr = Npy (py_slice (take N cs) 0 nbt)"
    and va: "va = Npy (py_slice (take N cs) nbt (nbt + nbv))"
  shows "\<exists>w2 reads. fs w2 = fs w1 \<and> io_log w2 = io_log w1 @ map ImageRead reads
     \<and> create_imagenet T folder wc nbt nbv pt pv tar w =
         (if N = 0 \<and> cs \<noteq> [] then (Raised IndexError, w2)
          else if length cs < N \<and> stop = None then (Raised RuntimeError, w2)
          else if (length cs < N \<or> N = 0) \<and> stop \<noteq> None then (Raised (the stop), w2)
          else if writable (fs w2) (npy_name pt) \<and> writable (fs w2) (npy_name pv)
          then (Returned,
                w2\<lparr>fs := (fs w2)\<lparr>files := ((files (fs w2))(npy_name pt \<mapsto> tr))(npy_name pv \<mapsto> va)\<rparr>,
                   io_log := io_log w2 @ [Saved (npy_name pt) tr, Saved (npy_name pv) va]\<rparr>)
          else if writable (fs w2) (npy_name pt)
          then (Raised OSError,
                w2\<lparr>fs := (fs w2)\<lparr>files := (files (fs w2))(npy_name pt \<mapsto> tr)\<rparr>,
                   io_log := io_log w2 @ [Saved (npy_name pt) tr]\<rparr>)
          else (Raised OSError, w2))"
proof -
  from create_imagenet_build[OF build] fetch
  have run: "create_imagenet T folder wc nbt nbv pt pv tar w
               = imagenet_build T folder wc nbt nbv pt pv w1" by simp
  from imagenet_build_cases[OF zeros names fit N cs stop, of pt pv, unfolded two_writes,
      folded run tr va]
  show ?thesis .
qed

text \<open>
  C10, as the code has it. Take a run of \<^verbatim>\<open>create_imagenet\<close> that builds the sets
  (the two output files do not both exist), and write \<open>nb_total\<close> for
  \<^verbatim>\<open>nb_training + nb_validation\<close>.

  An exception of the archive step ends the run with that exception; after the archive
  step so does an exception of \<^verbatim>\<open>numpy.zeros\<close> (\<^verbatim>\<open>ValueError\<close> for a negative
  extent or an array too big to address, \<^verbatim>\<open>MemoryError\<close>), and then one of the
  listing. No image has been read then.

  When these three steps succeed and a crop is \<^verbatim>\<open>width_crop\<close> by
  \<^verbatim>\<open>width_crop\<close>, let \<open>crops\<close> be the crops collected from the listing, in its
  order, up to the first image whose reading or cropping raises an exception that is
  neither \<^verbatim>\<open>TypeError\<close> nor \<^verbatim>\<open>ValueError\<close>, and \<open>stop\<close> that exception, if
  there is one.

  \<^item> If fewer than \<open>nb_total\<close> crops are collected and there is such an exception,
    the run raises that very exception.
  \<^item> For a positive \<open>nb_total\<close> the run raises \<^verbatim>\<open>RuntimeError\<close> if and only if
    fewer than \<open>nb_total\<close> crops are collected and there is no such exception, or
    the exception is itself a \<^verbatim>\<open>RuntimeError\<close>.
  \<^item> Whenever fewer than \<open>nb_total\<close> crops are collected, and whenever the run raises
    \<^verbatim>\<open>RuntimeError\<close>, the file system is the one left by the archive step and the
    log has grown by reads of images only: no file was written.
  \<^item> For a positive \<open>nb_total\<close>, when at least \<open>nb_total\<close> crops are collected the
    run returns if both output files can be opened for writing and raises
    \<^verbatim>\<open>OSError\<close> otherwise.
  \<^item> If the run returns and the two counts are not negative, at least \<open>nb_total\<close>
    crops were collected, and after the reads exactly two files were saved, in this
    order: the first \<^verbatim>\<open>nb_training\<close> crops to \<^verbatim>\<open>path_to_training\<close> and the next
    \<^verbatim>\<open>nb_validation\<close> crops to \<^verbatim>\<open>path_to_validation\<close>, both paths with
    \<^verbatim>\<open>.npy\<close> appended when missing. The two lists are consecutive parts of the list
    of crops, so no crop is in both. The files of the world after the run are those
    after the archive step with these two updates, the second over the first; when the
    two file names, with \<^verbatim>\<open>.npy\<close> appended, differ, each file holds its crops.
  \<^item> When \<open>nb_total\<close> is 0 the array has no slice: the run raises
    \<^verbatim>\<open>IndexError\<close> if a crop is collected, else the exception \<open>stop\<close> if there is
    one, else it saves two empty arrays like a run that collected enough crops.
\<close>

theorem create_imagenet_builds_sets:
  assumes build: "\<not> (isfile w path_to_training \<and> isfile w path_to_validation)"
    and run: "run = create_imagenet T path_to_folder_rgbs width_crop nb_training nb_validation
                      path_to_training path_to_validation path_to_tar w"
    and total: "nb_total = nb_training + nb_validation"
    and crops: "crops = collected T (fs w1) path_to_folder_rgbs width_crop nb_training
                          list_names (rng w1)"
    and stop: "stop = stopped_by T (fs w1) path_to_folder_rgbs width_crop nb_training
                        list_names (rng w1)"
  shows
   "(imagenet_fetch T path_to_folder_rgbs path_to_tar w = (Inl e, w1) \<longrightarrow> run = (Raised e, w1))
  \<and> (imagenet_fetch T path_to_folder_rgbs path_to_tar w = (Inr (), w1) \<longrightarrow>
       (numpy_zeros w1 nb_total width_crop width_crop = Inl e \<longrightarrow> run = (Raised e, w1))
     \<and> (numpy_zeros w1 nb_total width_crop width_crop = Inr z \<longrightarrow>
          (imagenet_list_names T path_to_folder_rgbs w1 = Inl e \<longrightarrow> run = (Raised e, w1))
        \<and> (imagenet_list_names T path_to_folder_rgbs w1 = Inr list_names
            \<and> crops_fit T (fs w1) path_to_folder_rgbs width_crop list_names \<longrightarrow>
              (stop = Some e \<and> int (length crops) < nb_total \<longrightarrow> fst run = Raised e)
            \<and> (0 < nb_total \<longrightarrow>
                 (fst run = Raised RuntimeError
                  \<longleftrightarrow> int (length crops) < nb_total \<and> (stop = None \<or> stop = Some RuntimeError)))
            \<and> (int (length crops) < nb_total \<or> fst run = Raised RuntimeError \<longrightarrow>
                 fs (snd run) = fs w1
               \<and> (\<exists>reads. io_log (snd run) = io_log w1 @ map ImageRead reads))
            \<and> (0 < nb_total \<and> nb_total \<le> int (length crops) \<longrightarrow>
                 fst run = (if writable (fs w1) (npy_name path_to_training)
                               \<and> writable (fs w1) (npy_name path_to_validation)
                            then Returned else Raised OSError))
            \<and> (fst run = Returned \<and> 0 \<le> nb_training \<and> 0 \<le> nb_validation \<longrightarrow>
                 nat nb_training + nat nb_validation \<le> length crops
               \<and> (\<exists>reads. io_log (snd run)
                     = io_log w1 @ map ImageRead reads
                       @ [Saved (npy_name path_to_training) (Npy (take (nat nb_training) crops)),
                          Saved (npy_name path_to_validation)
                            (Npy (take (nat nb_validation) (drop (nat nb_training) crops)))])
               \<and> files (fs (snd run))
                   = ((files (fs w1))
                        (npy_name path_to_training \<mapsto> Npy (take (nat nb_training) crops)))
                        (npy_name path_to_validation \<mapsto>
                           Npy (take (nat nb_validation) (drop (nat nb_training) crops)))
               \<and> (npy_name path_to_training \<noteq> npy_name path_to_validation \<longrightarrow>
                    files (fs (snd run)) (npy_name path_to_training)
                      = Some (Npy (take (nat nb_training) crops))
                  \<and> files (fs (snd run)) (npy_name path_to_validation)
                      = Some (Npy (take (nat nb_validation) (drop (nat nb_training) crops)))))
            \<and> (nb_total = 0 \<longrightarrow>
                 fst run
                 = (if crops \<noteq> [] then Raised IndexError
                    else case stop of
                           Some e \<Rightarrow> Raised e
                         | None \<Rightarrow>
                             if writable (fs w1) (npy_name path_to_training)
                                \<and> writable (fs w1) (npy_name path_to_validation)
                             then Returned else Raised OSError)))))"
proof (intro conjI impI)
  note cb = create_imagenet_build[OF build, of T path_to_folder_rgbs width_crop nb_training
      nb_validation path_to_tar, folded run]
  show "run = (Raised e, w1)"
    if "imagenet_fetch T path_to_folder_rgbs path_to_tar w = (Inl e, w1)"
    using that by (simp add: cb)
  assume fetch: "imagenet_fetch T path_to_folder_rgbs path_to_tar w = (Inr (), w1)"
  with cb have rb: "run = imagenet_build T path_to_folder_rgbs width_crop nb_training nb_validation
                            path_to_training path_to_validation w1" by simp
  show "numpy_zeros w1 nb_total width_crop width_crop = Inl e \<Longrightarrow> run = (Raised e, w1)"
    by (simp add: rb imagenet_build_def total)
  assume zeros: "numpy_zeros w1 nb_total width_crop width_crop = Inr z"
  show "imagenet_list_names T path_to_folder_rgbs w1 = Inl e \<Longrightarrow> run = (Raised e, w1)"
    using zeros by (simp add: rb imagenet_build_def total)
  assume "imagenet_list_names T path_to_folder_rgbs w1 = Inr list_names
            \<and> crops_fit T (fs w1) path_to_folder_rgbs width_crop list_names"
  then have names: "imagenet_list_names T path_to_folder_rgbs w1 = Inr list_names"
    and fit: "crops_fit T (fs w1) path_to_folder_rgbs width_crop list_names" by simp_all
  define N where "N = nat (nb_training + nb_validation)"
  let ?pt = "npy_name path_to_training" and ?pv = "npy_name path_to_validation"
  let ?tr = "Npy (py_slice (take N crops) 0 nb_training)"
  let ?va = "Npy (py_slice (take N crops) nb_training (nb_training + nb_validation))"
  from numpy_zeros_Inr[OF zeros] total have iN: "int N = nb_total" by (simp add: N_def)
  from imagenet_build_cases[OF zeros[unfolded total] names fit N_def crops stop, of path_to_training
      path_to_validation, unfolded two_writes, folded rb]
  obtain w2 reads where f: "fs w2 = fs w1" and lg: "io_log w2 = io_log w1 @ map ImageRead reads"
    and r: "run =
         (if N = 0 \<and> crops \<noteq> [] then (Raised IndexError, w2)
          else if length crops < N \<and> stop = None then (Raised RuntimeError, w2)
          else if (length crops < N \<or> N = 0) \<and> stop \<noteq> None then (Raised (the stop), w2)
          else if writable (fs w2) ?pt \<and> writable (fs w2) ?pv
          then (Returned, w2\<lparr>fs := (fs w2)\<lparr>files := ((files (fs w2))(?pt \<mapsto> ?tr))(?pv \<mapsto> ?va)\<rparr>,
                             io_log := io_log w2 @ [Saved ?pt ?tr, Saved ?pv ?va]\<rparr>)
          else if writable (fs w2) ?pt
          then (Raised OSError, w2\<lparr>fs := (fs w2)\<lparr>files := (files (fs w2))(?pt \<mapsto> ?tr)\<rparr>,
                                   io_log := io_log w2 @ [Saved ?pt ?tr]\<rparr>)
          else (Raised OSError, w2))"
    by blast
  define cI where "cI \<longleftrightarrow> N = 0 \<and> crops \<noteq> []"
  define cR where "cR \<longleftrightarrow> length crops < N \<and> stop = None"
  define cE where "cE \<longleftrightarrow> (length crops < N \<or> N = 0) \<and> stop \<noteq> None"
  define cW where "cW \<longleftrightarrow> writable (fs w1) ?pt \<and> writable (fs w1) ?pv"
  define wret where "wret = w2\<lparr>fs := (fs w2)\<lparr>files := ((files (fs w2))(?pt \<mapsto> ?tr))(?pv \<mapsto> ?va)\<rparr>,
                             io_log := io_log w2 @ [Saved ?pt ?tr, Saved ?pv ?va]\<rparr>"
  define wos where "wos = w2\<lparr>fs := (fs w2)\<lparr>files := (files (fs w2))(?pt \<mapsto> ?tr)\<rparr>,
                                   io_log := io_log w2 @ [Saved ?pt ?tr]\<rparr>"
  have r': "run =
         (if cI then (Raised IndexError, w2)
          else if cR then (Raised RuntimeError, w2)
          else if cE then (Raised (the stop), w2)
          else if cW then (Returned, wret)
          else if writable (fs w2) ?pt then (Raised OSError, wos)
          else (Raised OSError, w2))"
    using r unfolding cI_def cR_def cE_def cW_def wret_def wos_def f .
  have out: "fst run =
         (if cI then Raised IndexError
          else if cR then Raised RuntimeError
          else if cE then Raised (the stop)
          else if cW then Returned else Raised OSError)"
    by (simp add: r')
  have unchanged: "fs (snd run) = fs w1 \<and> (\<exists>reads. io_log (snd run) = io_log w1 @ map ImageRead reads)"
    if "cI \<or> cR \<or> cE"
  proof -
    from that have "snd run = w2" by (auto simp: r')
    with f lg show ?thesis by (simp only:) blast
  qed
  show "fst run = Raised e" if "stop = Some e \<and> int (length crops) < nb_total"
  proof -
    from that iN have "\<not> cI" "\<not> cR" "cE" "the stop = e" by (auto simp: cI_def cR_def cE_def)
    then show ?thesis by (simp add: out)
  qed
  show "fst run = Raised RuntimeError
          \<longleftrightarrow> int (length crops) < nb_total \<and> (stop = None \<or> stop = Some RuntimeError)"
    if pos: "0 < nb_total"
  proof -
    from pos iN have nI: "\<not> cI" by (auto simp: cI_def)
    from pos iN have cR: "cR \<longleftrightarrow> int (length crops) < nb_total \<and> stop = None"
      by (auto simp: cR_def)
    from pos iN have cE: "cE \<longleftrightarrow> int (length crops) < nb_total \<and> stop \<noteq> None"
      by (auto simp: cE_def)
    show ?thesis unfolding out using nI cR cE by (cases stop) auto
  qed
  have nothing_written:
    "fs (snd run) = fs w1 \<and> (\<exists>reads. io_log (snd run) = io_log w1 @ map ImageRead reads)"
    if h: "int (length crops) < nb_total \<or> fst run = Raised RuntimeError"
  proof (rule unchanged)
    from h show "cI \<or> cR \<or> cE"
    proof
      assume "int (length crops) < nb_total"
      with iN show ?thesis by (cases stop) (auto simp: cR_def cE_def)
    next
      assume "fst run = Raised RuntimeError"
      then show ?thesis unfolding out by (auto split: if_splits)
    qed
  qed
  show "fs (snd run) = fs w1"
    if "int (length crops) < nb_total \<or> fst run = Raised RuntimeError"
    using nothing_written[OF that] by simp
  show "\<exists>reads. io_log (snd run) = io_log w1 @ map ImageRead reads"
    if "int (length crops) < nb_total \<or> fst run = Raised RuntimeError"
    using nothing_written[OF that] by simp
  show "fst run = (if writable (fs w1) ?pt \<and> writable (fs w1) ?pv then Returned else Raised OSError)"
    if "0 < nb_total \<and> nb_total \<le> int (length crops)"
  proof -
    from that iN have "\<not> cI" "\<not> cR" "\<not> cE" by (auto simp: cI_def cR_def cE_def)
    then show ?thesis by (simp add: out cW_def)
  qed
  have saved: "nat nb_training + nat nb_validation \<le> length crops
      \<and> (\<exists>reads. io_log (snd run)
            = io_log w1 @ map ImageRead reads
              @ [Saved ?pt (Npy (take (nat nb_training) crops)),
                 Saved ?pv (Npy (take (nat nb_validation) (drop (nat nb_training) crops)))])
      \<and> files (fs (snd run))
          = ((files (fs w1))(?pt \<mapsto> Npy (take (nat nb_training) crops)))
              (?pv \<mapsto> Npy (take (nat nb_validation) (drop (nat nb_training) crops)))
      \<and> (?pt \<noteq> ?pv \<longrightarrow>
           files (fs (snd run)) ?pt = Some (Npy (take (nat nb_training) crops))
         \<and> files (fs (snd run)) ?pv
             = Some (Npy (take (nat nb_validation) (drop (nat nb_training) crops))))"
    if h: "fst run = Returned \<and> 0 \<le> nb_training \<and> 0 \<le> nb_validation"
  proof -
    from h have nn: "0 \<le> nb_training" "0 \<le> nb_validation" by simp_all
    from h have cs: "\<not> cI" "\<not> cR" "\<not> cE" "cW" unfolding out by (auto split: if_splits)
    then have w: "run = (Returned, wret)" by (simp add: r')
    from cs(2,3) have le: "N \<le> length crops" by (cases stop) (auto simp: cR_def cE_def)
    note ps = py_slice_training[OF nn N_def le]
    from nn have N: "N = nat nb_training + nat nb_validation" by (simp add: N_def nat_add_distrib)
    have l1: "io_log (snd run) = io_log w1 @ map ImageRead reads
                  @ [Saved ?pt (Npy (take (nat nb_training) crops)),
                     Saved ?pv (Npy (take (nat nb_validation) (drop (nat nb_training) crops)))]"
      by (simp add: w wret_def ps lg)
    have l2: "files (fs (snd run))
               = ((files (fs w1))(?pt \<mapsto> Npy (take (nat nb_training) crops)))
                   (?pv \<mapsto> Npy (take (nat nb_validation) (drop (nat nb_training) crops)))"
      by (simp add: w wret_def ps f)
    have l3: "?pt \<noteq> ?pv \<longrightarrow>
           files (fs (snd run)) ?pt = Some (Npy (take (nat nb_training) crops))
         \<and> files (fs (snd run)) ?pv
             = Some (Npy (take (nat nb_validation) (drop (nat nb_training) crops)))"
      unfolding l2 by simp
    from le N l1 l2 l3 show ?thesis by (simp only:) blast
  qed
  show "nat nb_training + nat nb_validation \<le> length crops"
    if "fst run = Returned \<and> 0 \<le> nb_training \<and> 0 \<le> nb_validation"
    using saved[OF that] by simp
  show "\<exists>reads. io_log (snd run)
            = io_log w1 @ map ImageRead reads
              @ [Saved ?pt (Npy (take (nat nb_training) crops)),
                 Saved ?pv (Npy (take (nat nb_validation) (drop (nat nb_training) crops)))]"
    if "fst run = Returned \<and> 0 \<le> nb_training \<and> 0 \<le> nb_validation"
    using saved[OF that] by (elim conjE)
  show "files (fs (snd run))
          = ((files (fs w1))(?pt \<mapsto> Npy (take (nat nb_training) crops)))
              (?pv \<mapsto> Npy (take (nat nb_validation) (drop (nat nb_training) crops)))"
    if "fst run = Returned \<and> 0 \<le> nb_training \<and> 0 \<le> nb_validation"
    using saved[OF that] by (elim conjE)
  show "files (fs (snd run)) ?pt = Some (Npy (take (nat nb_training) crops))"
    if "fst run = Returned \<and> 0 \<le> nb_training \<and> 0 \<le> nb_validation" "?pt \<noteq> ?pv"
    using saved[OF that(1)] that(2) by (elim conjE) simp
  show "files (fs (snd run)) ?pv
          = Some (Npy (take (nat nb_validation) (drop (nat nb_training) crops)))"
    if "fst run = Returned \<and> 0 \<le> nb_training \<and> 0 \<le> nb_validation" "?pt \<noteq> ?pv"
    using saved[OF that(1)] that(2) by (elim conjE) simp
  show "fst run
         = (if crops \<noteq> [] then Raised IndexError
            else case stop of
                   Some e \<Rightarrow> Raised e
                 | None \<Rightarrow>
                     if writable (fs w1) ?pt \<and> writable (fs w1) ?pv
                     then Returned else Raised OSError)"
    if "nb_total = 0"
  proof -
    from that iN have "N = 0" by simp
    then have "cI \<longleftrightarrow> crops \<noteq> []" "\<not> cR" "cE \<longleftrightarrow> stop \<noteq> None"
      by (auto simp: cI_def cR_def cE_def)
    then show ?thesis unfolding out cW_def by (cases stop) auto
  qed
qed

lemma demo_imagenet_fetch:
  "imagenet_fetch (demo_tools missing small) folder [] (demo_world existing names)
     = (Inr (), demo_world existing names)"
  by (simp add: imagenet_fetch_def)

lemma demo_imagenet_list_names:
  "imagenet_list_names (demo_tools missing small) ''photos'' (demo_world existing names) = Inr names"
  by (simp add: imagenet_list_names_def listdir_def demo_tools_def demo_world_def)

lemma demo_zeros:
  "numpy_zeros (demo_world existing names) 3 16 16 = Inr (zeros 3 16 16)"
  "numpy_zeros (demo_world existing names) 4 16 16 = Inr (zeros 4 16 16)"
  "numpy_zeros (demo_world existing names) 2 16 16 = Inr (zeros 2 16 16)"
  "numpy_zeros (demo_world existing names) 3 (2 ^ 32) (2 ^ 32) = Inl ValueError"
  "numpy_zeros (demo_world existing names) 2 (- 16) (- 16) = Inl ValueError"
  by (simp_all add: numpy_zeros_def demo_world_def array_bytes_def)

lemma demo_crop_at:
  "crop_at (demo_tools missing small) f wc b p g =
     (case demo_read missing small p of
        Inl e \<Rightarrow> (Inl e, g)
      | Inr a \<Rightarrow> demo_crop \<lparr>nrows = dim0 a, ncols = dim1 a, at2 = (\<lambda>r c. at3 a r c 0)\<rparr> wc b g)"
  by (simp add: crop_at_def luminance_of_def demo_tools_def demo_read_def demo_image_def
        channel0_def)

lemma demo_crops_fit: "crops_fit (demo_tools missing small) f folder wc names"
  by (auto simp: crops_fit_def demo_crop_at demo_read_def demo_crop_def demo_image_def
        slice2_def Let_def split: if_splits)

lemma demo_collected_2:
  "map corner (collected (demo_tools [''photos/d.jpg''] [''photos/bb.jpg''])
          (fs (demo_world [] [''a.png'', ''bb.jpg'', ''c.JPEG'', ''d.jpg''])) ''photos'' 16 1
          [''a.png'', ''bb.jpg'', ''c.JPEG'', ''d.jpg''] 0) = [12, 13]"
  "stopped_by (demo_tools [''photos/d.jpg''] [''photos/bb.jpg''])
          (fs (demo_world [] [''a.png'', ''bb.jpg'', ''c.JPEG'', ''d.jpg''])) ''photos'' 16 1
          [''a.png'', ''bb.jpg'', ''c.JPEG'', ''d.jpg''] 0 = Some OSError"
  by (simp_all add: collected_def stopped_by_def crops_before_def crops_of_def first_uncaught_def
        goes_on_def corner_def demo_crop_at demo_read_def demo_crop_def demo_image_def
        path_join_def slice2_def Let_def)

lemma demo_collected_3:
  "map corner (collected (demo_tools [''photos/d.jpg''] [''photos/bb.jpg''])
          (fs (demo_world [] [''a.png'', ''bb.jpg'', ''c.JPEG'', ''d.jpg''])) ''photos'' 16 2
          [''a.png'', ''bb.jpg'', ''c.JPEG'', ''d.jpg''] 0) = [12, 15]"
  "stopped_by (demo_tools [''photos/d.jpg''] [''photos/bb.jpg''])
          (fs (demo_world [] [''a.png'', ''bb.jpg'', ''c.JPEG'', ''d.jpg''])) ''photos'' 16 2
          [''a.png'', ''bb.jpg'', ''c.JPEG'', ''d.jpg''] 0 = Some OSError"
  by (simp_all add: collected_def stopped_by_def crops_before_def crops_of_def first_uncaught_def
        goes_on_def corner_def demo_crop_at demo_read_def demo_crop_def demo_image_def
        path_join_def slice2_def Let_def)

lemma demo_collected_4:
  "map corner (collected (demo_tools [] [''photos/bb.jpg''])
          (fs (demo_world [] [''a.png'', ''bb.jpg'', ''c.JPEG'', ''d.jpg''])) ''photos'' 16 3
          [''a.png'', ''bb.jpg'', ''c.JPEG'', ''d.jpg''] 0) = [12, 15, 12]"
  "stopped_by (demo_tools [] [''photos/bb.jpg''])
          (fs (demo_world [] [''a.png'', ''bb.jpg'', ''c.JPEG'', ''d.jpg''])) ''photos'' 16 3
          [''a.png'', ''bb.jpg'', ''c.JPEG'', ''d.jpg''] 0 = None"
  by (simp_all add: collected_def stopped_by_def crops_before_def crops_of_def first_uncaught_def
        goes_on_def corner_def demo_crop_at demo_read_def demo_crop_def demo_image_def
        path_join_def slice2_def Let_def)

lemma demo_rng: "rng (demo_world existing names) = 0"
  by (simp add: demo_world_def)

lemma demo_not_isfile: "\<not> (isfile (demo_world [] names) p \<and> isfile (demo_world [] names) q)"
  by (simp add: isfile_def demo_world_def)

lemma demo_writable: "writable (fs (demo_world existing names)) p"
  by (simp add: demo_world_def)

theorem create_imagenet_builds_sets_witness:
  "\<not> (isfile (demo_world [] [''a.png'', ''bb.jpg'', ''c.JPEG'', ''d.jpg'']) ''tr.npy''
       \<and> isfile (demo_world [] [''a.png'', ''bb.jpg'', ''c.JPEG'', ''d.jpg'']) ''va.npy'')
   \<and> fst (create_imagenet (demo_tools [''photos/d.jpg''] [''photos/bb.jpg'']) ''photos'' 16 1 1
            ''tr.npy'' ''va.npy'' [] (demo_world [] [''a.png'', ''bb.jpg'', ''c.JPEG'', ''d.jpg'']))
       = Returned
   \<and> map corner (stored (snd (create_imagenet (demo_tools [''photos/d.jpg''] [''photos/bb.jpg''])
            ''photos'' 16 1 1 ''tr.npy'' ''va.npy'' []
            (demo_world [] [''a.png'', ''bb.jpg'', ''c.JPEG'', ''d.jpg''])))
          ''tr.npy'') = [12]
   \<and> map corner (stored (snd (create_imagenet (demo_tools [''photos/d.jpg''] [''photos/bb.jpg''])
            ''photos'' 16 1 1 ''tr.npy'' ''va.npy'' []
            (demo_world [] [''a.png'', ''bb.jpg'', ''c.JPEG'', ''d.jpg''])))
          ''va.npy'') = [13]
   \<and> fst (create_imagenet (demo_tools [''photos/d.jpg''] [''photos/bb.jpg'']) ''photos'' 16 2 1
            ''tr.npy'' ''va.npy'' [] (demo_world [] [''a.png'', ''bb.jpg'', ''c.JPEG'', ''d.jpg'']))
       = Raised OSError
   \<and> fs (snd (create_imagenet (demo_tools [''photos/d.jpg''] [''photos/bb.jpg'']) ''photos'' 16 2 1
            ''tr.npy'' ''va.npy'' [] (demo_world [] [''a.png'', ''bb.jpg'', ''c.JPEG'', ''d.jpg''])))
       = fs (demo_world [] [''a.png'', ''bb.jpg'', ''c.JPEG'', ''d.jpg''])
   \<and> fst (create_imagenet (demo_tools [] [''photos/bb.jpg'']) ''photos'' 16 3 1 ''tr.npy'' ''va.npy'' []
            (demo_world [] [''a.png'', ''bb.jpg'', ''c.JPEG'', ''d.jpg''])) = Raised RuntimeError
   \<and> fs (snd (create_imagenet (demo_tools [] [''photos/bb.jpg'']) ''photos'' 16 3 1 ''tr.npy''
            ''va.npy'' [] (demo_world [] [''a.png'', ''bb.jpg'', ''c.JPEG'', ''d.jpg''])))
       = fs (demo_world [] [''a.png'', ''bb.jpg'', ''c.JPEG'', ''d.jpg''])
   \<and> create_imagenet (demo_tools [] [''photos/bb.jpg'']) ''photos'' (2 ^ 32) 2 1 ''tr.npy'' ''va.npy'' []
        (demo_world [] [''a.png'', ''bb.jpg'', ''c.JPEG'', ''d.jpg''])
       = (Raised ValueError, demo_world [] [''a.png'', ''bb.jpg'', ''c.JPEG'', ''d.jpg''])"
proof -
  let ?names = "[''a.png'', ''bb.jpg'', ''c.JPEG'', ''d.jpg'']"
  let ?W = "demo_world [] ?names"
  let ?T = "demo_tools [] [''photos/bb.jpg'']"
  let ?Td = "demo_tools [''photos/d.jpg''] [''photos/bb.jpg'']"
  let ?run2 = "create_imagenet ?Td ''photos'' 16 1 1 ''tr.npy'' ''va.npy'' [] ?W"
  let ?run3 = "create_imagenet ?Td ''photos'' 16 2 1 ''tr.npy'' ''va.npy'' [] ?W"
  let ?run4 = "create_imagenet ?T ''photos'' 16 3 1 ''tr.npy'' ''va.npy'' [] ?W"
  let ?runz = "create_imagenet ?T ''photos'' (2 ^ 32) 2 1 ''tr.npy'' ''va.npy'' [] ?W"
  have names_fit: "imagenet_list_names T' ''photos'' ?W = Inr ?names
                   \<and> crops_fit T' (fs ?W) ''photos'' 16 ?names"
    if "T' = demo_tools missing small" for T' missing small
    unfolding that using demo_imagenet_list_names demo_crops_fit by (rule conjI)
  have nn: "npy_name ''tr.npy'' = ''tr.npy''" "npy_name ''va.npy'' = ''va.npy''"
    by (simp_all add: npy_name_def)
  \<comment> \<open>two crops are asked for and collected before the image that cannot be read\<close>
  define crops2 where "crops2 = collected ?Td (fs ?W) ''photos'' 16 1 ?names (rng ?W)"
  have c2: "map corner crops2 = [12, 13]" by (simp only: crops2_def demo_rng demo_collected_2)
  from arg_cong[OF c2, of length] have len2: "length crops2 = 2" by simp
  have z2: "numpy_zeros ?W (1 + 1) 16 16 = Inr (zeros 2 16 16)" using demo_zeros(3) by simp
  have z3: "numpy_zeros ?W (2 + 1) 16 16 = Inr (zeros 3 16 16)" using demo_zeros(1) by simp
  note main2 = create_imagenet_builds_sets[where w = ?W and T = ?Td
      and path_to_folder_rgbs = "''photos''" and path_to_tar = "[]" and ?w1.0 = ?W
      and width_crop = 16 and nb_training = 1 and nb_validation = 1 and list_names = ?names
      and path_to_training = "''tr.npy''" and path_to_validation = "''va.npy''"
      and z = "zeros 2 16 16",
      OF demo_not_isfile refl refl crops2_def refl, THEN conjunct2, rule_format,
      OF demo_imagenet_fetch, THEN conjunct2, rule_format,
      OF z2, THEN conjunct2, rule_format,
      OF names_fit[OF refl]]
  have enough: "(0::int) < 1 + 1 \<and> 1 + 1 \<le> int (length crops2)" by (simp add: len2)
  from main2[THEN conjunct2, THEN conjunct2, THEN conjunct2, THEN conjunct1, rule_format, OF enough]
  have ret: "fst ?run2 = Returned" by (simp add: demo_writable)
  have n11: "fst ?run2 = Returned \<and> (0::int) \<le> 1 \<and> (0::int) \<le> 1" using ret by simp
  from main2[THEN conjunct2, THEN conjunct2, THEN conjunct2, THEN conjunct2, THEN conjunct1,
      rule_format, OF n11]
  have files: "files (fs (snd ?run2))
             = ((files (fs ?W))(npy_name ''tr.npy'' \<mapsto> Npy (take (nat 1) crops2)))
                 (npy_name ''va.npy'' \<mapsto> Npy (take (nat 1) (drop (nat 1) crops2)))"
    by (elim conjE)
  have st: "stored (snd ?run2) ''tr.npy'' = take 1 crops2"
    "stored (snd ?run2) ''va.npy'' = take 1 (drop 1 crops2)"
    by (simp_all add: stored_def files nn)
  have tr: "map corner (stored (snd ?run2) ''tr.npy'') = [12]"
    by (simp only: st take_map[symmetric] c2) simp
  have va: "map corner (stored (snd ?run2) ''va.npy'') = [13]"
    by (simp only: st take_map[symmetric] drop_map[symmetric] c2) simp
  \<comment> \<open>three crops are asked for, the fourth image cannot be read\<close>
  define crops3 where "crops3 = collected ?Td (fs ?W) ''photos'' 16 2 ?names (rng ?W)"
  have c3: "map corner crops3 = [12, 15]" by (simp only: crops3_def demo_rng demo_collected_3)
  from arg_cong[OF c3, of length] have len3: "length crops3 = 2" by simp
  have stop3: "stopped_by ?Td (fs ?W) ''photos'' 16 2 ?names (rng ?W) = Some OSError"
    by (simp only: demo_rng demo_collected_3)
  note main3 = create_imagenet_builds_sets[where w = ?W and T = ?Td
      and path_to_folder_rgbs = "''photos''" and path_to_tar = "[]" and ?w1.0 = ?W
      and width_crop = 16 and nb_training = 2 and nb_validation = 1 and list_names = ?names
      and path_to_training = "''tr.npy''" and path_to_validation = "''va.npy''"
      and z = "zeros 3 16 16" and e = OSError,
      OF demo_not_isfile refl refl crops3_def refl, THEN conjunct2, rule_format,
      OF demo_imagenet_fetch, THEN conjunct2, rule_format,
      OF z3, THEN conjunct2, rule_format, OF names_fit[OF refl]]
  have few3: "int (length crops3) < 2 + 1" by (simp add: len3)
  from main3[THEN conjunct1, rule_format, OF conjI[OF stop3 few3]]
  have os: "fst ?run3 = Raised OSError" .
  from main3[THEN conjunct2, THEN conjunct2, THEN conjunct1, rule_format, OF disjI1[OF few3]]
  have fso: "fs (snd ?run3) = fs ?W" by (rule conjunct1)
  \<comment> \<open>four crops are asked for, three images can be read and cropped\<close>
  define crops4 where "crops4 = collected ?T (fs ?W) ''photos'' 16 3 ?names (rng ?W)"
  have c4: "map corner crops4 = [12, 15, 12]" by (simp only: crops4_def demo_rng demo_collected_4)
  from arg_cong[OF c4, of length] have len4: "length crops4 = 3" by simp
  have stop4: "stopped_by ?T (fs ?W) ''photos'' 16 3 ?names (rng ?W) = None"
    by (simp only: demo_rng demo_collected_4)
  note main4 = create_imagenet_builds_sets[where w = ?W and T = ?T
      and path_to_folder_rgbs = "''photos''" and path_to_tar = "[]" and ?w1.0 = ?W
      and width_crop = 16 and nb_training = 3 and nb_validation = 1 and list_names = ?names
      and path_to_training = "''tr.npy''" and path_to_validation = "''va.npy''"
      and z = "zeros 4 16 16",
      OF demo_not_isfile refl refl crops4_def refl, THEN conjunct2, rule_format,
      OF demo_imagenet_fetch, THEN conjunct2, rule_format]
  have z4: "numpy_zeros ?W (3 + 1) 16 16 = Inr (zeros 4 16 16)" using demo_zeros(2) by simp
  note built4 = main4[OF z4, THEN conjunct2, rule_format, OF names_fit[OF refl]]
  have few4: "int (length crops4) < 3 + 1" by (simp add: len4)
  have pos4: "(0::int) < 3 + 1" by simp
  from built4[THEN conjunct2, THEN conjunct1, rule_format, OF pos4] few4 stop4
  have re: "fst ?run4 = Raised RuntimeError" by simp
  from built4[THEN conjunct2, THEN conjunct2, THEN conjunct1, rule_format, OF disjI1[OF few4]]
  have fsr: "fs (snd ?run4) = fs ?W" by (rule conjunct1)
  \<comment> \<open>an array that numpy cannot address\<close>
  have zb: "numpy_zeros ?W (2 + 1) (2 ^ 32) (2 ^ 32) = Inl ValueError" using demo_zeros(4) by simp
  from create_imagenet_builds_sets[where w = ?W and T = ?T
      and path_to_folder_rgbs = "''photos''" and path_to_tar = "[]" and ?w1.0 = ?W
      and width_crop = "2 ^ 32" and nb_training = 2 and nb_validation = 1 and list_names = ?names
      and path_to_training = "''tr.npy''" and path_to_validation = "''va.npy''" and e = ValueError,
      OF demo_not_isfile refl refl refl refl, THEN conjunct2, rule_format,
      OF demo_imagenet_fetch, THEN conjunct1, rule_format, OF zb]
  have big: "?runz = (Raised ValueError, ?W)" .
  from demo_not_isfile ret tr va os fso re fsr big show ?thesis by blast
qed

lemma demo_attempts_missing:
  "map corner (crops_of (attempts (demo_tools [''photos/a.png''] [])
          (fs (demo_world [] [''a.png'', ''bb.jpg''])) ''photos'' 16 1
          [''a.png'', ''bb.jpg''] 0 0)) = [13]"
  by (simp add: crops_of_def corner_def demo_crop_at demo_read_def demo_crop_def demo_image_def
        path_join_def slice2_def Let_def)

lemma demo_attempts_2:
  "map corner (crops_of (attempts (demo_tools [] [])
          (fs (demo_world [] [''a.png'', ''bb.jpg''])) ''photos'' 16 1
          [''a.png'', ''bb.jpg''] 0 0)) = [12, 13]"
  by (simp add: crops_of_def corner_def demo_crop_at demo_read_def demo_crop_def demo_image_def
        path_join_def slice2_def Let_def)

lemma demo_collected_all:
  "collected (demo_tools [] []) (fs (demo_world [] [''a.png'', ''bb.jpg''])) ''photos'' 16 1
          [''a.png'', ''bb.jpg''] 0
   = crops_of (attempts (demo_tools [] []) (fs (demo_world [] [''a.png'', ''bb.jpg''])) ''photos''
                 16 1 [''a.png'', ''bb.jpg''] 0 0)"
  "stopped_by (demo_tools [] []) (fs (demo_world [] [''a.png'', ''bb.jpg''])) ''photos'' 16 1
          [''a.png'', ''bb.jpg''] 0 = None"
  by (simp_all add: collected_def stopped_by_def crops_before_def first_uncaught_def goes_on_def
        demo_crop_at demo_read_def demo_crop_def demo_image_def path_join_def Let_def)

text \<open>
  The claim as worded fails in three ways. With a negative \<^verbatim>\<open>width_crop\<close> and an
  empty listing, \<^verbatim>\<open>numpy.zeros\<close> raises \<^verbatim>\<open>ValueError\<close>: no image is read and
  cropped, and the error is not \<^verbatim>\<open>RuntimeError\<close>. With two listed images of which the
  first cannot be opened, only one image can be read and cropped where two are asked
  for, and the run raises the \<^verbatim>\<open>OSError\<close> of the read, which the builder does not
  catch. With the paths \<^verbatim>\<open>set\<close> and \<^verbatim>\<open>set.npy\<close> for the two sets, the run
  returns, no file \<^verbatim>\<open>set\<close> exists, and the file \<^verbatim>\<open>set.npy\<close> holds the validation
  crop, not the training crop: \<^verbatim>\<open>numpy.save\<close> wrote both sets to it.
\<close>

theorem create_imagenet_counterexample:
  "imagenet_list_names (demo_tools [] []) ''photos'' (demo_world [] []) = Inr []
   \<and> fst (create_imagenet (demo_tools [] []) ''photos'' (- 16) 1 1 ''tr.npy'' ''va.npy'' []
            (demo_world [] [])) = Raised ValueError
   \<and> map corner (crops_of (attempts (demo_tools [''photos/a.png''] [])
          (fs (demo_world [] [''a.png'', ''bb.jpg''])) ''photos'' 16 1 [''a.png'', ''bb.jpg''] 0 0))
       = [13]
   \<and> fst (create_imagenet (demo_tools [''photos/a.png''] []) ''photos'' 16 1 1 ''tr.npy'' ''va.npy'' []
            (demo_world [] [''a.png'', ''bb.jpg''])) = Raised OSError
   \<and> map corner (take 1 (crops_of (attempts (demo_tools [] [])
          (fs (demo_world [] [''a.png'', ''bb.jpg''])) ''photos'' 16 1 [''a.png'', ''bb.jpg''] 0 0)))
       = [12]
   \<and> fst (create_imagenet (demo_tools [] []) ''photos'' 16 1 1 ''set'' ''set.npy'' []
            (demo_world [] [''a.png'', ''bb.jpg''])) = Returned
   \<and> files (fs (snd (create_imagenet (demo_tools [] []) ''photos'' 16 1 1 ''set'' ''set.npy'' []
            (demo_world [] [''a.png'', ''bb.jpg''])))) ''set'' = None
   \<and> map corner (stored (snd (create_imagenet (demo_tools [] []) ''photos'' 16 1 1 ''set''
            ''set.npy'' [] (demo_world [] [''a.png'', ''bb.jpg'']))) ''set.npy'') = [13]"
proof -
  let ?names = "[''a.png'', ''bb.jpg'']"
  let ?W = "demo_world [] ?names"
  let ?run = "create_imagenet (demo_tools [] []) ''photos'' 16 1 1 ''set'' ''set.npy'' [] ?W"
  have n1: "(0::int) \<le> 1" by simp
  have z2: "numpy_zeros ?W (1 + 1) 16 16 = Inr (zeros 2 16 16)" using demo_zeros(3) by simp
  have a: "fst (create_imagenet (demo_tools [] []) ''photos'' (- 16) 1 1 ''tr.npy'' ''va.npy'' []
            (demo_world [] [])) = Raised ValueError"
    by (simp add: create_imagenet_build[OF demo_not_isfile] demo_imagenet_fetch imagenet_build_def
          numpy_zeros_def)
  have b: "fst (create_imagenet (demo_tools [''photos/a.png''] []) ''photos'' 16 1 1 ''tr.npy''
            ''va.npy'' [] ?W) = Raised OSError"
    by (simp add: create_imagenet_build[OF demo_not_isfile] demo_imagenet_fetch
          imagenet_build_unfold[OF z2 demo_imagenet_list_names] Let_def read_crop_crop_at
          demo_crop_at demo_read_def path_join_def)
  define crops where "crops = collected (demo_tools [] []) (fs ?W) ''photos'' 16 1 ?names (rng ?W)"
  have c: "map corner crops = [12, 13]"
    by (simp only: crops_def demo_rng demo_collected_all demo_attempts_2)
  from arg_cong[OF c, of length] have len: "length crops = 2" by simp
  have stop: "stopped_by (demo_tools [] []) (fs ?W) ''photos'' 16 1 ?names (rng ?W) = None"
    by (simp only: demo_rng demo_collected_all)
  have N: "(2::nat) = nat (1 + 1)" by simp
  have le: "2 \<le> length crops" by (simp add: len)
  note ps = py_slice_training[OF n1 n1 N le]
  from create_imagenet_outcome[OF demo_not_isfile demo_imagenet_fetch z2 demo_imagenet_list_names
      demo_crops_fit N crops_def stop[symmetric] refl refl, of "''set''" "''set.npy''"]
  obtain w2 where f: "fs w2 = fs ?W"
    and r: "?run = (Returned,
                w2\<lparr>fs := (fs w2)\<lparr>files := ((files (fs w2))
                       (npy_name ''set'' \<mapsto> Npy (py_slice (take 2 crops) 0 1)))
                       (npy_name ''set.npy'' \<mapsto> Npy (py_slice (take 2 crops) 1 (1 + 1)))\<rparr>,
                   io_log := io_log w2 @ [Saved (npy_name ''set'') (Npy (py_slice (take 2 crops) 0 1)),
                      Saved (npy_name ''set.npy'') (Npy (py_slice (take 2 crops) 1 (1 + 1)))]\<rparr>)"
    by (auto simp: len demo_world_def)
  have nn: "npy_name ''set'' = ''set.npy''" "npy_name ''set.npy'' = ''set.npy''"
    by (simp_all add: npy_name_def)
  have ret: "fst ?run = Returned" by (simp only: r fst_conv)
  have none: "files (fs (snd ?run)) ''set'' = None"
    by (simp only: r snd_conv nn) (simp add: f demo_world_def)
  have st: "stored (snd ?run) ''set.npy'' = take 1 (drop 1 crops)"
    using ps by (simp only: r snd_conv nn stored_def) simp
  have d: "map corner (stored (snd ?run) ''set.npy'') = [13]"
    by (simp only: st take_map[symmetric] drop_map[symmetric] c) simp
  have e: "map corner (take 1 (crops_of (attempts (demo_tools [] []) (fs ?W) ''photos'' 16 1
             ?names 0 0))) = [12]"
    by (simp only: take_map[symmetric] demo_attempts_2) simp
  from a b d e ret none demo_imagenet_list_names demo_attempts_missing show ?thesis by blast
qed

section \<open>Reading a Bitstream back\<close>

lemma bit_shift_in_0: "bit (shift_in p b) 0 = b"
proof -
  have "\<not> bit (push_bit 1 p) 0"
    by (simp only: bit_push_bit_iff) simp
  moreover have "bit (if b then 1 else 0 :: 8 word) 0 = b"
    by (simp add: bit_1_iff)
  ultimately show ?thesis by (simp only: shift_in_def bit_or_iff) simp
qed

lemma bit_shift_in_Suc: "bit (shift_in p b) (Suc n) = (Suc n < 8 \<and> bit p n)"
proof -
  have "bit (push_bit 1 p) (Suc n) = (Suc n < 8 \<and> bit p n)"
    by (simp only: bit_push_bit_iff) (auto simp: possible_bit_word)
  moreover have "\<not> bit (if b then 1 else 0 :: 8 word) (Suc n)"
    by (simp add: bit_1_iff)
  ultimately show ?thesis by (simp only: shift_in_def bit_or_iff) simp
qed

lemma byte_bits_nth:
  "k < 8 \<Longrightarrow> byte_bits x ! k = bit x (7 - k)"
proof -
  assume "k < 8"
  then consider "k = 0" | "k = 1" | "k = 2" | "k = 3" | "k = 4" | "k = 5" | "k = 6" | "k = 7"
    by linarith
  then show ?thesis by cases (simp_all add: byte_bits_def)
qed

lemma length_byte_bits: "length (byte_bits x) = 8"
  by (simp add: byte_bits_def)

lemma length_buffer_bits: "length (buffer_bits buf) = 8 * length buf"
  by (induction buf) (simp_all add: buffer_bits_def length_byte_bits)

lemma buffer_bits_nth:
  "k < 8 * length buf \<Longrightarrow> buffer_bits buf ! k = bit (buf ! (k div 8)) (7 - k mod 8)"
proof (induction buf arbitrary: k)
  case Nil
  then show ?case by simp
next
  case (Cons x buf)
  have bb: "buffer_bits (x # buf) = byte_bits x @ buffer_bits buf" by (simp add: buffer_bits_def)
  show ?case
  proof (cases "k < 8")
    case True
    then show ?thesis by (simp add: bb nth_append length_byte_bits byte_bits_nth)
  next
    case False
    then have k: "k = (k - 8) + 8" by simp
    from False Cons.prems have "k - 8 < 8 * length buf" by simp
    from Cons.IH[OF this] False show ?thesis
      by (simp add: bb nth_append length_byte_bits le_div_geq le_mod_geq)
  qed
qed

lemma pending_writeBit:
  assumes "filled w < 7"
  shows "pending (writeBit b w) = pending w @ [b]"
proof -
  let ?p = "shift_in (partial w) b"
  have "map (\<lambda>i. bit ?p (filled w - i)) [0..<filled w]
          = map (\<lambda>i. bit (partial w) (filled w - 1 - i)) [0..<filled w]"
  proof (rule map_cong[OF refl])
    fix i assume "i \<in> set [0..<filled w]"
    then have i: "i < filled w" by simp
    then obtain n where n: "filled w - i = Suc n" by (cases "filled w - i") simp_all
    with i assms have "Suc n < 8" "n = filled w - 1 - i" by simp_all
    with n show "bit ?p (filled w - i) = bit (partial w) (filled w - 1 - i)"
      by (simp only: bit_shift_in_Suc) simp
  qed
  with assms show ?thesis
    by (simp add: pending_def writeBit_def Let_def bit_shift_in_0)
qed

lemma byte_complete:
  assumes "filled w = 7"
  shows "byte_bits (shift_in (partial w) b) = pending w @ [b]"
proof -
  have u: "[0..<7] = [0, 1, 2, 3, 4, 5, 6]" by (simp add: upt_rec)
  have s: "7 = Suc 6" "6 = Suc 5" "5 = Suc 4" "4 = Suc 3" "3 = Suc 2" "2 = Suc 1" "1 = Suc 0"
    by simp_all
  have "bit (shift_in (partial w) b) (Suc n) = bit (partial w) n"
    if "n < 7" for n using that by (simp add: bit_shift_in_Suc)
  then show ?thesis
    unfolding byte_bits_def pending_def assms u
    by (simp add: bit_shift_in_0 eval_nat_numeral)
qed

lemma written_writeBit:
  assumes "filled w < 8"
  shows "written (writeBit b w) = written w @ [b]" and "filled (writeBit b w) < 8"
proof -
  show "filled (writeBit b w) < 8" using assms by (simp add: writeBit_def Let_def)
  show "written (writeBit b w) = written w @ [b]"
  proof (cases "filled w = 7")
    case True
    then show ?thesis
      by (simp add: written_def writeBit_def Let_def buffer_bits_def byte_complete pending_def)
  next
    case False
    with assms have "filled w < 7" by simp
    from pending_writeBit[OF this, of b] False show ?thesis
      by (simp add: written_def) (simp add: writeBit_def Let_def)
  qed
qed

lemma written_write_bits:
  assumes "filled w < 8"
  shows "written (write_bits bs w) = written w @ bs \<and> filled (write_bits bs w) < 8
       \<and> filled (write_bits bs w) = (filled w + length bs) mod 8"
  using assms
proof (induction bs arbitrary: w)
  case Nil
  then show ?case by simp
next
  case (Cons b bs)
  from written_writeBit[OF Cons.prems, of b] have
    w: "written (writeBit b w) = written w @ [b]" and f: "filled (writeBit b w) < 8" by simp_all
  have fl: "filled (writeBit b w) = (filled w + 1) mod 8"
    using Cons.prems by (simp add: writeBit_def Let_def)
  have e: "(Suc (filled w) mod 8 + length bs) mod 8 = Suc (filled w + length bs) mod 8"
    by presburger
  from Cons.IH[OF f] w fl e show ?case by simp
qed

lemma written_empty: "written w = buffer_bits (bytes_out w)" if "filled w = 0"
  using that by (simp add: written_def pending_def)

lemma new_writer_written: "written new_writer = []" "filled new_writer = 0"
  by (simp_all add: new_writer_def written_def pending_def buffer_bits_def)

lemma flush_bits:
  assumes "filled w < 8"
  shows "buffer_bits (flush pad w) = written w @ replicate ((8 - filled w) mod 8) pad"
proof (cases "filled w = 0")
  case True
  then show ?thesis by (simp add: flush_def written_empty)
next
  case False
  let ?w' = "write_bits (replicate (8 - filled w) pad) w"
  from written_write_bits[OF assms, of "replicate (8 - filled w) pad"] assms False
  have w: "written ?w' = written w @ replicate (8 - filled w) pad" and f: "filled ?w' = 0"
    by simp_all
  from False assms have "(8 - filled w) mod 8 = 8 - filled w" by simp
  with False w f show ?thesis by (simp add: flush_def written_empty)
qed

lemma flush_write_bits:
  "buffer_bits (flush pad (write_bits bs new_writer))
     = bs @ replicate ((8 - length bs mod 8) mod 8) pad"
proof -
  from written_write_bits[of new_writer bs] new_writer_written
  have "written (write_bits bs new_writer) = bs"
    and "filled (write_bits bs new_writer) < 8"
    and "filled (write_bits bs new_writer) = length bs mod 8" by simp_all
  with flush_bits[of "write_bits bs new_writer" pad] show ?thesis by simp
qed

lemma read_bits_buffer:
  assumes "position r \<le> 8 * length (buffer r)"
  shows "read_bits n r =
     (if position r + n \<le> 8 * length (buffer r)
      then Inr (take n (drop (position r) (buffer_bits (buffer r))), r\<lparr>position := position r + n\<rparr>)
      else Inl ExhaustedInput)"
  using assms
proof (induction n arbitrary: r)
  case 0
  then show ?case by simp
next
  case (Suc n)
  show ?case
  proof (cases "position r < 8 * length (buffer r)")
    case False
    with Suc.prems show ?thesis by (simp add: readBit_def)
  next
    case True
    let ?r' = "r\<lparr>position := position r + 1\<rparr>"
    from True have rb: "readBit r = Inr (buffer_bits (buffer r) ! position r, ?r')"
      by (simp add: readBit_def buffer_bits_nth)
    from True have d: "drop (position r) (buffer_bits (buffer r))
        = buffer_bits (buffer r) ! position r # drop (position r + 1) (buffer_bits (buffer r))"
      by (simp add: length_buffer_bits Cons_nth_drop_Suc)
    from True have "position ?r' \<le> 8 * length (buffer ?r')" by simp
    from Suc.IH[OF this] True show ?thesis
      by (simp add: rb d)
  qed
qed

text \<open>
  C4, on the Bitstream as the spec describes it. Write any bits with \<^verbatim>\<open>writeBit\<close> into
  a new writer, flush with any padding value, and read the bytes from the start. The
  first \<open>n\<close> calls of \<^verbatim>\<open>readBit\<close>, for any \<open>n\<close> up to the number of bits
  written, succeed and return the first \<open>n\<close> bits written, in the order they were
  written. Reading on returns the padding bits of the last byte, and the buffer holds
  nothing else. \<^verbatim>\<open>readBit\<close> fails if and only if the read position is at the end of
  the byte buffer, that is, no bits remain to be read, and its only failure is
  \<^verbatim>\<open>ExhaustedInput\<close>. So right after the last written bit it fails exactly when the
  number of bits written is a multiple of 8.
\<close>

theorem readBit_order_and_exhaustion:
  "(n \<le> length bs \<longrightarrow>
      read_bits n (open_reader (flush pad (write_bits bs new_writer)))
        = Inr (take n bs, \<lparr>buffer = flush pad (write_bits bs new_writer), position = n\<rparr>))
   \<and> read_bits (8 * length (flush pad (write_bits bs new_writer)))
        (open_reader (flush pad (write_bits bs new_writer)))
        = Inr (bs @ replicate ((8 - length bs mod 8) mod 8) pad,
               \<lparr>buffer = flush pad (write_bits bs new_writer),
                position = 8 * length (flush pad (write_bits bs new_writer))\<rparr>)
   \<and> (readBit r = Inl ExhaustedInput \<longleftrightarrow> 8 * length (buffer r) \<le> position r)
   \<and> (\<forall>e. readBit r = Inl e \<longrightarrow> e = ExhaustedInput)
   \<and> (readBit \<lparr>buffer = flush pad (write_bits bs new_writer), position = length bs\<rparr>
         = Inl ExhaustedInput \<longleftrightarrow> length bs mod 8 = 0)"
proof -
  define buf where "buf = flush pad (write_bits bs new_writer)"
  define k where "k = (8 - length bs mod 8) mod 8"
  have bits: "buffer_bits buf = bs @ replicate k pad"
    unfolding buf_def k_def by (rule flush_write_bits)
  from arg_cong[OF bits, of length] have len: "8 * length buf = length bs + k"
    by (simp add: length_buffer_bits)
  have r0: "position \<lparr>buffer = buf, position = 0\<rparr> \<le> 8 * length (buffer \<lparr>buffer = buf, position = 0\<rparr>)"
    by simp
  note rb = read_bits_buffer[OF r0]
  have a: "n \<le> length bs \<longrightarrow>
      read_bits n (open_reader buf) = Inr (take n bs, \<lparr>buffer = buf, position = n\<rparr>)"
    using len by (simp add: open_reader_def rb bits)
  have b: "read_bits (8 * length buf) (open_reader buf)
        = Inr (bs @ replicate k pad, \<lparr>buffer = buf, position = 8 * length buf\<rparr>)"
  proof -
    have "take (8 * length buf) (buffer_bits buf) = buffer_bits buf"
      by (simp add: length_buffer_bits)
    then show ?thesis by (simp add: open_reader_def rb bits)
  qed
  have c: "readBit r = Inl ExhaustedInput \<longleftrightarrow> 8 * length (buffer r) \<le> position r"
    by (auto simp: readBit_def)
  have d: "\<forall>e. readBit r = Inl e \<longrightarrow> e = ExhaustedInput"
    by (auto simp: readBit_def split: if_splits)
  have "k = 0 \<longleftrightarrow> length bs mod 8 = 0" unfolding k_def by presburger
  with len have e: "readBit \<lparr>buffer = buf, position = length bs\<rparr> = Inl ExhaustedInput
         \<longleftrightarrow> length bs mod 8 = 0"
    by (auto simp: readBit_def)
  from a b c d e show ?thesis unfolding buf_def k_def by blast
qed

lemma demo_flush:
  "flush False (write_bits [True, False, True, True, False, False, True, False, True, True] new_writer)
     = [178, 192]"
  by (simp add: flush_def new_writer_def writeBit_def shift_in_def Let_def eval_nat_numeral)

theorem readBit_order_and_exhaustion_witness:
  "(10::nat) \<le> length [True, False, True, True, False, False, True, False, True, True]
   \<and> flush False (write_bits [True, False, True, True, False, False, True, False, True, True] new_writer)
       = [178, 192]
   \<and> read_bits 10 (open_reader [178, 192])
       = Inr ([True, False, True, True, False, False, True, False, True, True],
              \<lparr>buffer = [178, 192], position = 10\<rparr>)
   \<and> read_bits 16 (open_reader [178, 192])
       = Inr ([True, False, True, True, False, False, True, False, True, True] @ replicate 6 False,
              \<lparr>buffer = [178, 192], position = 16\<rparr>)
   \<and> readBit \<lparr>buffer = [178, 192], position = 10\<rparr> \<noteq> Inl ExhaustedInput
   \<and> readBit \<lparr>buffer = [178, 192], position = 16\<rparr> = Inl ExhaustedInput"
proof -
  define bs where "bs = [True, False, True, True, False, False, True, False, True, True]"
  have lb: "length bs = 10" by (simp add: bs_def)
  then have l: "(10::nat) \<le> length bs" by simp
  have fl: "flush False (write_bits bs new_writer) = [178, 192]"
    unfolding bs_def by (rule demo_flush)
  note t = readBit_order_and_exhaustion[of 10 bs False "\<lparr>buffer = [178, 192], position = 16\<rparr>",
      unfolded fl]
  from t[THEN conjunct1] l have "read_bits 10 (open_reader [178, 192])
       = Inr (take 10 bs, \<lparr>buffer = [178, 192], position = 10\<rparr>)" by (rule mp)
  with lb have a: "read_bits 10 (open_reader [178, 192])
       = Inr (bs, \<lparr>buffer = [178, 192], position = 10\<rparr>)" by simp
  from t[THEN conjunct2, THEN conjunct1] lb have b: "read_bits 16 (open_reader [178, 192])
       = Inr (bs @ replicate 6 False, \<lparr>buffer = [178, 192], position = 16\<rparr>)"
    by simp
  from t[THEN conjunct2, THEN conjunct2, THEN conjunct1]
  have c: "readBit \<lparr>buffer = [178, 192], position = 16\<rparr> = Inl ExhaustedInput" by simp
  from t[THEN conjunct2, THEN conjunct2, THEN conjunct2, THEN conjunct2] lb
  have d: "readBit \<lparr>buffer = [178, 192], position = 10\<rparr> \<noteq> Inl ExhaustedInput" by simp
  from l fl a b c d show ?thesis unfolding bs_def by blast
qed

end
